theory Spec2Isabelle
  imports Complex_Main "HOL-Library.Sublist"
begin

section \<open>Text helpers\<close>

text \<open>
  A transcript is modelled as an Isabelle string whose characters are the code units
  below 256 (Basic Latin and Latin-1 Supplement); text with other characters is outside
  the model. On these strings \<open>toLowerCase\<close> and \<open>trim\<close> are the ECMAScript functions of
  the same name: \<open>toLowerCase\<close> maps A to Z (65 to 90) and the capital letters 192 to 222
  other than the multiplication sign 215 to the letter 32 places higher and keeps every
  other character; \<open>trim\<close> removes TAB, LF, VT, FF, CR, SPACE and NO-BREAK SPACE (160)
  from both ends. \<open>str_includes\<close> is String.prototype.includes (substring search from
  position 0).
\<close>

definition lowerChar :: "char \<Rightarrow> char" where
  "lowerChar c =
     (let n = (of_char c :: nat)
      in if (65 \<le> n \<and> n \<le> 90) \<or> (192 \<le> n \<and> n \<le> 222 \<and> n \<noteq> 215)
         then char_of (n + 32) else c)"

definition toLowerCase :: "string \<Rightarrow> string" where
  "toLowerCase s = map lowerChar s"

definition isWhiteSpace :: "char \<Rightarrow> bool" where
  "isWhiteSpace c = ((of_char c :: nat) \<in> {9, 10, 11, 12, 13, 32, 160})"

definition trim :: "string \<Rightarrow> string" where
  "trim s = rev (dropWhile isWhiteSpace (rev (dropWhile isWhiteSpace s)))"

fun str_includes :: "string \<Rightarrow> string \<Rightarrow> bool" where
  "str_includes [] w = (w = [])"
| "str_includes (c # cs) w = (prefix w (c # cs) \<or> str_includes cs w)"

section \<open>Recognition Lifecycle Manager (hooks/useVoiceCommands.ts)\<close>

text \<open>
  The hook keeps its session in refs and one piece of component state (\<open>isListening\<close>).
  The platform engine is an external object: the model records every call made to it
  (\<open>calls\<close>), and the engine's callbacks (\<open>onstart\<close>, \<open>onend\<close>, \<open>onerror\<close>,
  \<open>onresult\<close>) are functions on the session that the platform invokes.

  \<open>window.setTimeout\<close> is modelled by a list of pending timers. A timer is identified by
  its id; firing it removes it from the list and runs its callback. No assumption is made
  on when a pending timer fires.
\<close>

datatype engine_call = EngineStart | EngineStop

datatype timer_job =
    OnEndRestart
  | RestartListeningStart
  | ResumeListeningStart
  | ResumeAfterProcessingStart

record timer =
  tid :: nat
  delay :: nat
  job :: timer_job

record rlm =
  isMobile :: bool
  hasRecognition :: bool
  isListening :: bool
  voiceError :: "string option"
  isStoppedManually :: bool
  isPaused :: bool
  isProcessingTranscript :: bool
  restartTimerRef :: "nat option"
  timers :: "timer list"
  nextTimerId :: nat
  calls :: "engine_call list"

text \<open>The session right after the effect of the hook has created the engine.\<close>

definition mounted :: "bool \<Rightarrow> rlm" where
  "mounted mobile =
     \<lparr>isMobile = mobile, hasRecognition = True, isListening = False, voiceError = None,
      isStoppedManually = False, isPaused = False, isProcessingTranscript = False,
      restartTimerRef = None, timers = [], nextTimerId = 1, calls = []\<rparr>"

definition setTimeout :: "timer_job \<Rightarrow> nat \<Rightarrow> rlm \<Rightarrow> nat \<times> rlm" where
  "setTimeout j d s =
     (nextTimerId s,
      s\<lparr>timers := timers s @ [\<lparr>tid = nextTimerId s, delay = d, job = j\<rparr>],
        nextTimerId := Suc (nextTimerId s)\<rparr>)"

definition clearTimeout :: "nat \<Rightarrow> rlm \<Rightarrow> rlm" where
  "clearTimeout i s = s\<lparr>timers := filter (\<lambda>t. tid t \<noteq> i) (timers s)\<rparr>"

text \<open>\<open>if (restartTimerRef.current) clearTimeout(restartTimerRef.current)\<close>\<close>

definition clearRestartTimer :: "rlm \<Rightarrow> rlm" where
  "clearRestartTimer s = (case restartTimerRef s of None \<Rightarrow> s | Some i \<Rightarrow> clearTimeout i s)"

text \<open>
  \<open>recognitionRef.current?.start()\<close> and \<open>recognitionRef.current?.stop()\<close>. An
  \<open>InvalidStateError\<close> thrown by \<open>start\<close> is caught and logged by every caller, so the
  call itself is all that the session sees.
\<close>

definition engineStart :: "rlm \<Rightarrow> rlm" where
  "engineStart s = (if hasRecognition s then s\<lparr>calls := calls s @ [EngineStart]\<rparr> else s)"

definition engineStop :: "rlm \<Rightarrow> rlm" where
  "engineStop s = (if hasRecognition s then s\<lparr>calls := calls s @ [EngineStop]\<rparr> else s)"

definition onstart :: "rlm \<Rightarrow> rlm" where
  "onstart s = s\<lparr>isListening := True, voiceError := None\<rparr>"

definition onend :: "rlm \<Rightarrow> rlm" where
  "onend s =
     (let s1 = clearRestartTimer (s\<lparr>isListening := False\<rparr>)
      in if \<not> isStoppedManually s1 \<and> \<not> isPaused s1 \<and> \<not> isProcessingTranscript s1
         then (let (i, s2) = setTimeout OnEndRestart (if isMobile s1 then 500 else 250) s1
               in s2\<lparr>restartTimerRef := Some i\<rparr>)
         else s1)"

definition onerror :: "string \<Rightarrow> rlm \<Rightarrow> rlm" where
  "onerror e s =
     (if e = ''not-allowed'' \<or> e = ''service-not-allowed''
      then s\<lparr>isStoppedManually := True,
             voiceError := Some ''Microphone permission denied. Please enable microphone access in your browser/phone settings and try again.'',
             isListening := False\<rparr>
      else if e = ''network''
      then s\<lparr>voiceError := Some ''Network error. Please check your internet connection.''\<rparr>
      else if e = ''no-speech'' \<or> e = ''audio-capture'' \<or> e = ''aborted''
      then s
      else s\<lparr>voiceError := Some (''Speech Error: '' @ e)\<rparr>)"

text \<open>
  The last entry of \<open>event.results\<close> with its first alternative. \<open>confidence\<close> is optional
  in the platform type; \<open>confidence || 0\<close> reads a missing one as 0.
\<close>

record speech_result =
  transcript :: string
  isFinal :: bool
  confidence :: "real option"

type_synonym command_transcript = "string \<times> bool \<times> real"

text \<open>
  \<open>recognition.onresult\<close>. The callback \<open>onTranscriptRef.current\<close> is installed on every
  render, so it is always present. In both branches the call of the callback is the last
  statement: the session returned is the session at the moment the callback is invoked, and
  the second component is what the callback receives (\<open>None\<close> when it is not invoked).
\<close>

definition onresult :: "rlm \<Rightarrow> speech_result \<Rightarrow> rlm \<times> command_transcript option" where
  "onresult s r =
     (let t = toLowerCase (trim (transcript r));
          c = (case confidence r of None \<Rightarrow> 0 | Some x \<Rightarrow> x)
      in if isFinal r \<and> t \<noteq> []
         then (let s1 = (if isMobile s then engineStop (s\<lparr>isProcessingTranscript := True\<rparr>) else s)
               in (s1, Some (t, True, c)))
         else if \<not> isFinal r \<and> t \<noteq> []
         then (s, Some (t, False, c))
         else (s, None))"

text \<open>
  \<open>startListening\<close>; \<open>granted\<close> tells whether \<open>getUserMedia\<close> resolved. A denial sets
  an error message only when it is a permission error (\<open>permissionError\<close>). The message
  begins with a warning sign (U+26A0 U+FE0F), written here as its six UTF-8 bytes; the
  hook only stores the message.
\<close>

definition warningSign :: string where
  "warningSign = [CHR 0xE2, CHR 0x9A, CHR 0xA0, CHR 0xEF, CHR 0xB8, CHR 0x8F]"

definition startListening :: "bool \<Rightarrow> bool \<Rightarrow> rlm \<Rightarrow> rlm" where
  "startListening granted permissionError s =
     (let s1 = clearRestartTimer s
      in if \<not> granted
         then (if permissionError
               then s1\<lparr>voiceError := Some (warningSign @ '' Please enable microphone permission in your device settings and try again.'')\<rparr>
               else s1)
         else (let s2 = s1\<lparr>voiceError := None\<rparr>
               in if hasRecognition s2 \<and> \<not> isListening s2
                  then engineStart (s2\<lparr>isStoppedManually := False, isPaused := False\<rparr>)
                  else s2))"

definition stopListening :: "rlm \<Rightarrow> rlm" where
  "stopListening s =
     (let s1 = clearRestartTimer s
      in if hasRecognition s1
         then engineStop (s1\<lparr>isStoppedManually := True, isPaused := False\<rparr>)
         else s1)"

definition restartListening :: "rlm \<Rightarrow> rlm" where
  "restartListening s =
     (if hasRecognition s
      then snd (setTimeout RestartListeningStart 100 (s\<lparr>isStoppedManually := False, isPaused := False\<rparr>))
      else s)"

definition pauseListening :: "rlm \<Rightarrow> rlm" where
  "pauseListening s =
     (if hasRecognition s \<and> isListening s then engineStop (s\<lparr>isPaused := True\<rparr>) else s)"

definition resumeListening :: "rlm \<Rightarrow> rlm" where
  "resumeListening s =
     (if hasRecognition s \<and> \<not> isListening s
      then snd (setTimeout ResumeListeningStart 100 (s\<lparr>isPaused := False\<rparr>))
      else s)"

definition resetError :: "rlm \<Rightarrow> rlm" where
  "resetError s = s\<lparr>voiceError := None, isStoppedManually := False\<rparr>"

definition resumeAfterProcessing :: "rlm \<Rightarrow> rlm" where
  "resumeAfterProcessing s =
     (let s1 = s\<lparr>isProcessingTranscript := False\<rparr>
      in if isMobile s1 \<and> \<not> isStoppedManually s1 \<and> \<not> isPaused s1
         then snd (setTimeout ResumeAfterProcessingStart 300 s1)
         else s1)"

text \<open>The callbacks handed to \<open>setTimeout\<close>, by the place that scheduled them.\<close>

fun runTimer :: "timer_job \<Rightarrow> rlm \<Rightarrow> rlm" where
  "runTimer OnEndRestart s =
     (if \<not> isStoppedManually s \<and> \<not> isPaused s \<and> \<not> isProcessingTranscript s
      then engineStart s else s)"
| "runTimer RestartListeningStart s = engineStart s"
| "runTimer ResumeListeningStart s = engineStart s"
| "runTimer ResumeAfterProcessingStart s = engineStart s"

definition fireTimer :: "nat \<Rightarrow> rlm \<Rightarrow> rlm" where
  "fireTimer i s =
     (case find (\<lambda>t. tid t = i) (timers s) of
        None \<Rightarrow> s
      | Some t \<Rightarrow> runTimer (job t) (s\<lparr>timers := filter (\<lambda>t. tid t \<noteq> i) (timers s)\<rparr>))"

text \<open>
  The hook is used by \<open>App\<close>, whose effect (App.tsx 53-61) couples it to speech output:
  \<^verbatim>\<open>if (!isVoiceCommandActive) return;
  if (isSpeaking) pauseListening(); else resumeListening();\<close>
  Its dependencies are \<open>isSpeaking\<close>, \<open>isVoiceCommandActive\<close>, \<open>pauseListening\<close> and
  \<open>resumeListening\<close>; the two callbacks are re-created whenever \<open>isListening\<close> changes.
  So the effect runs after every render in which \<open>isListening\<close> has changed (\<open>afterRender\<close>,
  with the session before and after the change), with the callbacks of the new render.
\<close>

definition listeningEffect :: "bool \<Rightarrow> bool \<Rightarrow> rlm \<Rightarrow> rlm" where
  "listeningEffect voiceActive speaking s =
     (if \<not> voiceActive then s
      else if speaking then pauseListening s
      else resumeListening s)"

definition afterRender :: "bool \<Rightarrow> bool \<Rightarrow> rlm \<Rightarrow> rlm \<Rightarrow> rlm" where
  "afterRender voiceActive speaking s s' =
     (if isListening s' \<noteq> isListening s then listeningEffect voiceActive speaking s' else s')"

text \<open>
  What the platform does on its own between two calls of the application, in an \<open>App\<close>
  with voice commands active or not (\<open>voiceActive\<close>) and speaking or not (\<open>speaking\<close>):
  it reports that the engine has started or that the session has ended, each followed by
  the render and the effect of \<open>App\<close>, or it lets a pending timer fire.
\<close>

datatype platform_event = EngineStarted | EndOfSession | TimerFires nat

fun platform_step :: "bool \<Rightarrow> bool \<Rightarrow> rlm \<Rightarrow> platform_event \<Rightarrow> rlm" where
  "platform_step voiceActive speaking s EngineStarted = afterRender voiceActive speaking s (onstart s)"
| "platform_step voiceActive speaking s EndOfSession = afterRender voiceActive speaking s (onend s)"
| "platform_step voiceActive speaking s (TimerFires i) = fireTimer i s"

section \<open>Command Coordinator (App.tsx)\<close>

text \<open>
  \<open>ActionType\<close> (components/Controls) and \<open>AppState\<close> (types) are declared outside the
  files at hand; their members are the ones \<open>App.tsx\<close> uses. The action
  \<open>LIVE_COMMENTARY\<close> is written \<open>ActionType.LIVE_COMMENTARY\<close>, the state of the same
  name \<open>LIVE_COMMENTARY\<close>.
\<close>

datatype ActionType =
    DESCRIBE_SCENE | READ_TEXT | IDENTIFY_PEOPLE | CHECK_HAZARDS | ANALYZE_TERRAIN
  | SAVE_ITEM | LIVE_COMMENTARY | FIND_ITEM | MANAGE_ITEMS | HELP | ASK_QUESTION
  | ASK_GEMINI | DELETE_ITEM | CLOSE_MANAGEMENT | STOP | UNKNOWN

datatype AppState =
    IDLE | ANALYZING | SAVING_ITEM_LISTEN | FINDING_ITEM | INTERPRETING_COMMAND
  | LIVE_COMMENTARY | AWAITING_FOLLOWUP | MANAGING_ITEMS

text \<open>
  A value thrown or a promise rejected: an \<open>Error\<close> object with its message, a string,
  or anything else. An awaited collaborator either resolves or rejects.
\<close>

datatype thrown = JsError string | JsString string | JsOther

datatype 'a outcome = Resolves 'a | Rejects thrown

text \<open>How an asynchronous function ends: it returns, it throws, or it never returns.\<close>

datatype completion = Returned | Threw thrown | Hung

datatype collaborator =
    DescribeScene | ReadTextFromImage | IdentifyPeople | CheckForHazards | AnalyzeTerrain
  | GetQuickFrameDescription | FindObject string | AskFollowUpQuestion string
  | AskGemini string

text \<open>
  Every call that leaves the Coordinator is recorded, in order: speech output, the
  Recognition Lifecycle Manager, the capture, interpretation and analysis collaborators,
  the item store, and the delays a Polling Loop waits for.
\<close>

datatype effect =
    Cancel
  | Speak string
  | ResumeAfterProcessing
  | PauseListening
  | ResumeListening
  | ListenForInput
  | CaptureFrame
  | InterpretCommand string "string list" AppState
  | Call collaborator
  | SaveItem string
  | DeleteItem string
  | Delay nat

text \<open>
  The component state of \<open>App\<close> (set through the \<open>useState\<close> setters), the two refs
  \<open>isFindingActive\<close> and \<open>isLiveActive\<close>, \<open>isCameraReady\<close> of the camera hook, and the
  record of effects. Saved items are represented by their names.
\<close>

record app =
  appState :: AppState
  personalItems :: "string list"
  lastResponse :: string
  error :: "string option"
  isLive :: bool
  findingItemName :: "string option"
  isVoiceCommandActive :: bool
  lastAnalyzedImage :: "string option"
  conversationHistory :: "string list"
  isCameraReady :: bool
  isFindingActive :: bool
  isLiveActive :: bool
  effects :: "effect list"

text \<open>
  \<open>payload?.itemName\<close> and \<open>payload?.query\<close>; the code only tests them for truthiness, so
  a missing field and the empty string are both the empty string here.
\<close>

record payload =
  itemName :: string
  query :: string

text \<open>
  What the collaborators answer while one command is processed: the interpretation
  (\<open>None\<close> for a result without action), \<open>captureFrame()\<close> for a handler that captures
  once, the successive results of \<open>captureFrame()\<close> seen by the object-search loop,
  \<open>listenForInput()\<close>, the analysis or query collaborator (text and conversation history),
  \<open>getHelp()\<close>, \<open>personalDB.getItems()\<close> after a save, and \<open>personalDB.deleteItem\<close>.
\<close>

record env =
  interpreted :: "(ActionType \<times> payload) option outcome"
  frame :: "string option"
  finderFrames :: "string option list"
  heard :: "string outcome"
  reply :: "(string \<times> string list) outcome"
  helpText :: string
  storedItems :: "string list"
  deleted :: "string list outcome"

definition emit :: "effect \<Rightarrow> app \<Rightarrow> app" where
  "emit e s = s\<lparr>effects := effects s @ [e]\<rparr>"

definition speak :: "string \<Rightarrow> app \<Rightarrow> app" where
  "speak t s = emit (Speak t) s"

definition cancel :: "app \<Rightarrow> app" where
  "cancel s = emit Cancel s"

text \<open>\<open>!imageData\<close>: \<open>null\<close> or the empty string.\<close>

definition noImage :: "string option \<Rightarrow> bool" where
  "noImage f = (case f of None \<Rightarrow> True | Some d \<Rightarrow> d = [])"

text \<open>\<open>err instanceof Error ? err.message : d\<close> and \<open>typeof err === 'string' ? err : d\<close>\<close>

definition errorMessage :: "string \<Rightarrow> thrown \<Rightarrow> string" where
  "errorMessage d e = (case e of JsError m \<Rightarrow> m | _ \<Rightarrow> d)"

definition stringOr :: "string \<Rightarrow> thrown \<Rightarrow> string" where
  "stringOr d e = (case e of JsString m \<Rightarrow> m | _ \<Rightarrow> d)"

definition dq :: string where
  "dq = [CHR 0x22]"

definition stopLiveCommentary :: "app \<Rightarrow> app" where
  "stopLiveCommentary s =
     (if isLiveActive s
      then (cancel (s\<lparr>isLiveActive := False, isLive := False, appState := IDLE\<rparr>))
             \<lparr>lastResponse := ''Live commentary stopped.''\<rparr>
      else s)"

definition stopObjectFinder :: "app \<Rightarrow> app" where
  "stopObjectFinder s =
     (if isFindingActive s
      then (cancel (s\<lparr>isFindingActive := False, findingItemName := None, appState := IDLE\<rparr>))
             \<lparr>lastResponse := ''Stopped finding item.''\<rparr>
      else s)"

section \<open>Polling Loop Engines (App.tsx)\<close>

text \<open>
  \<open>runLiveCommentary\<close> and \<open>runObjectFinder\<close> are asynchronous functions: each runs until
  its next \<open>await\<close>, where it is suspended and anything else may run, and is resumed with
  the value awaited. The model keeps the place of suspension and gives one function per
  resumption; the state a loop is resumed in is whatever the rest of the application has
  made of it in the meantime.
\<close>

datatype live_pc = LiveAwaitAnalysis | LiveAwaitDelay | LiveExited

text \<open>
  From the loop head \<open>while (isLiveActive.current)\<close> to the next \<open>await\<close>; \<open>fr\<close> is what
  \<open>captureFrame()\<close> returns. The delay is recorded when the loop starts to wait for it.
\<close>

definition liveIterate :: "string option \<Rightarrow> app \<Rightarrow> app \<times> live_pc" where
  "liveIterate fr s =
     (if \<not> isLiveActive s then (s, LiveExited)
      else (let s1 = emit CaptureFrame s
            in if \<not> isLiveActive s1 then (s1, LiveExited)
               else if \<not> noImage fr then (emit (Call GetQuickFrameDescription) s1, LiveAwaitAnalysis)
               else (emit (Delay 2000) s1, LiveAwaitDelay)))"

text \<open>After \<open>await getQuickFrameDescription(...)\<close>, inside the \<open>try\<close>.\<close>

definition liveAfterAnalysis :: "string outcome \<Rightarrow> app \<Rightarrow> app \<times> live_pc" where
  "liveAfterAnalysis res s =
     (let s1 = (case res of
                  Resolves description \<Rightarrow>
                    (if isLiveActive s \<and> description \<noteq> []
                     then speak description (s\<lparr>lastResponse := description\<rparr>)
                     else s)
                | Rejects e \<Rightarrow> s)
      in (emit (Delay 2000) s1, LiveAwaitDelay))"

fun liveResume :: "live_pc \<Rightarrow> string outcome \<Rightarrow> string option \<Rightarrow> app \<Rightarrow> app \<times> live_pc" where
  "liveResume LiveAwaitAnalysis res fr s = liveAfterAnalysis res s"
| "liveResume LiveAwaitDelay res fr s = liveIterate fr s"
| "liveResume LiveExited res fr s = (s, LiveExited)"

definition liveStartMessage :: string where
  "liveStartMessage = ''Starting live commentary. Say 'stop' to exit.''"

definition runLiveCommentary :: "string option \<Rightarrow> app \<Rightarrow> app \<times> live_pc" where
  "runLiveCommentary fr s =
     (if isLiveActive s then (s, LiveExited)
      else liveIterate fr
             (speak liveStartMessage
                (s\<lparr>isLiveActive := True, isLive := True, appState := LIVE_COMMENTARY,
                   lastResponse := liveStartMessage\<rparr>)))"

text \<open>
  The object-search loop. \<open>FinderRunning\<close>: the loop is still executing synchronously
  after all the results of \<open>captureFrame()\<close> supplied so far. \<open>FinderFailed\<close>: the
  asynchronous function has ended with a rejected promise.
\<close>

datatype finder_pc =
    FinderAwaitAnalysis | FinderAwaitDelay3000 | FinderAwaitDelay500
  | FinderExited | FinderFailed thrown | FinderRunning

fun finderIterate :: "string \<Rightarrow> string option list \<Rightarrow> app \<Rightarrow> app \<times> finder_pc" where
  "finderIterate name [] s = (if \<not> isFindingActive s then (s, FinderExited) else (s, FinderRunning))"
| "finderIterate name (fr # frs) s =
     (if \<not> isFindingActive s then (s, FinderExited)
      else (let s1 = emit CaptureFrame s
            in if noImage fr then finderIterate name frs s1
               else (emit (Call (FindObject name)) s1, FinderAwaitAnalysis)))"

definition notFoundText :: string where
  "notFoundText = ''I don't see it here.''"

text \<open>After \<open>await findObject(...)\<close>; the call is not inside a \<open>try\<close>.\<close>

definition finderAfterAnalysis :: "string \<Rightarrow> string outcome \<Rightarrow> app \<Rightarrow> app \<times> finder_pc" where
  "finderAfterAnalysis name res s =
     (case res of
        Rejects e \<Rightarrow> (s, FinderFailed e)
      | Resolves responseText \<Rightarrow>
          (if \<not> isFindingActive s then (s, FinderExited)
           else if responseText \<noteq> notFoundText
           then (emit (Delay 3000) (speak responseText (s\<lparr>lastResponse := responseText\<rparr>)),
                 FinderAwaitDelay3000)
           else (emit (Delay 500) (s\<lparr>lastResponse := ''Looking for '' @ name @ ''...''\<rparr>),
                 FinderAwaitDelay500)))"

fun finderResume ::
  "string \<Rightarrow> finder_pc \<Rightarrow> string outcome \<Rightarrow> string option list \<Rightarrow> app \<Rightarrow> app \<times> finder_pc" where
  "finderResume name FinderAwaitAnalysis res frs s = finderAfterAnalysis name res s"
| "finderResume name FinderAwaitDelay3000 res frs s = (emit (Delay 500) s, FinderAwaitDelay500)"
| "finderResume name FinderAwaitDelay500 res frs s = finderIterate name frs s"
| "finderResume name FinderRunning res frs s = finderIterate name frs s"
| "finderResume name FinderExited res frs s = (s, FinderExited)"
| "finderResume name (FinderFailed e) res frs s = (s, FinderFailed e)"

definition finderStartMessage :: "string \<Rightarrow> string" where
  "finderStartMessage name =
     ''Looking for '' @ name @ ''. Pan your camera around. Say 'stop' to exit.''"

definition runObjectFinder :: "string \<Rightarrow> string option list \<Rightarrow> app \<Rightarrow> app \<times> finder_pc" where
  "runObjectFinder name frs s =
     (if isFindingActive s then (s, FinderExited)
      else finderIterate name frs
             (speak (finderStartMessage name)
                (s\<lparr>isFindingActive := True, findingItemName := Some name,
                   appState := FINDING_ITEM, lastResponse := finderStartMessage name\<rparr>)))"

section \<open>Action handlers (App.tsx)\<close>

text \<open>
  A handler is a closure of one render: it reads the component state of that render
  (argument \<open>r\<close>: \<open>appState\<close>, \<open>isLive\<close>, \<open>isCameraReady\<close>, \<open>personalItems\<close>,
  \<open>lastAnalyzedImage\<close>, \<open>conversationHistory\<close>, \<open>isVoiceCommandActive\<close>), while refs are
  read and all writes are made in the current state \<open>s\<close>. \<open>handleAction\<close> is memoised and
  re-created when \<open>isLive\<close>, \<open>personalItems\<close>, \<open>appState\<close>, \<open>conversationHistory\<close>,
  \<open>lastAnalyzedImage\<close> or \<open>isVoiceCommandActive\<close> (through \<open>handleSaveItem\<close>) change, so
  for these \<open>r\<close> is the render in which the handler was called; \<open>isCameraReady r\<close> is
  the value in the render in which \<open>handleAction\<close> was last re-created. A handler is run
  from its call to its end in one step, with the answers of the collaborators it awaits
  given by \<open>env\<close>.
\<close>

definition isBusy :: "app \<Rightarrow> bool" where
  "isBusy r = (appState r \<in> set [ANALYZING, SAVING_ITEM_LISTEN, FINDING_ITEM,
                                INTERPRETING_COMMAND, LIVE_COMMENTARY])"

definition processAction :: "app \<Rightarrow> collaborator \<Rightarrow> bool \<Rightarrow> env \<Rightarrow> app \<Rightarrow> app" where
  "processAction r apiCall allowFollowUp ev s =
     (if appState r = ANALYZING \<or> \<not> isCameraReady r then s
      else (let s1 = emit CaptureFrame
                       ((cancel s)\<lparr>appState := ANALYZING, error := None, lastResponse := []\<rparr>)
            in if noImage (frame ev)
               then s1\<lparr>error := Some ''Could not capture frame from camera.'', appState := IDLE\<rparr>
               else (let s2 = emit (Call apiCall) s1
                     in case reply ev of
                          Resolves (text, history) \<Rightarrow>
                            (let s3 = speak text (s2\<lparr>lastResponse := text\<rparr>)
                             in if allowFollowUp
                                then s3\<lparr>lastAnalyzedImage := frame ev,
                                        conversationHistory := history,
                                        appState := AWAITING_FOLLOWUP\<rparr>
                                else s3\<lparr>appState := IDLE\<rparr>)
                        | Rejects e \<Rightarrow>
                            (let m = errorMessage ''An unknown error occurred.'' e
                             in (speak (''Error: '' @ m) (s2\<lparr>error := Some m\<rparr>))
                                  \<lparr>appState := IDLE\<rparr>))))"

definition processTerrainAction :: "app \<Rightarrow> env \<Rightarrow> app \<Rightarrow> app" where
  "processTerrainAction r ev s =
     (if appState r = ANALYZING \<or> \<not> isCameraReady r then s
      else (let s1 = emit CaptureFrame
                       ((cancel s)\<lparr>appState := ANALYZING, error := None,
                                   lastResponse := ''Analyzing terrain...''\<rparr>)
            in if noImage (frame ev)
               then s1\<lparr>error := Some ''Could not capture frame from camera.'', appState := IDLE\<rparr>
               else (let s2 = emit (Call AnalyzeTerrain) s1
                     in case reply ev of
                          Resolves (text, history) \<Rightarrow>
                            (speak text (s2\<lparr>lastResponse := text\<rparr>))\<lparr>appState := IDLE\<rparr>
                        | Rejects e \<Rightarrow>
                            (let m = errorMessage ''An unknown error occurred.'' e
                             in (speak (''Error: '' @ m) (s2\<lparr>error := Some m\<rparr>))
                                  \<lparr>appState := IDLE\<rparr>))))"

definition saveFinally :: "app \<Rightarrow> app \<Rightarrow> app" where
  "saveFinally r s =
     (let s1 = s\<lparr>appState := IDLE\<rparr>
      in if isVoiceCommandActive r then emit ResumeListening s1 else s1)"

definition saveFailed :: "thrown \<Rightarrow> app \<Rightarrow> app" where
  "saveFailed e s =
     speak ''Sorry, I couldn't save that.''
       (s\<lparr>error := Some (''Save failed: '' @ stringOr ''Could not hear you clearly.'' e)\<rparr>)"

definition handleSaveItem :: "app \<Rightarrow> env \<Rightarrow> app \<Rightarrow> app" where
  "handleSaveItem r ev s =
     (let s1 = emit ListenForInput
                 (speak ''What should I call this item?''
                    ((cancel ((emit PauseListening s)\<lparr>appState := SAVING_ITEM_LISTEN, error := None\<rparr>))
                       \<lparr>lastResponse := ''What should I call this item?''\<rparr>))
      in case heard ev of
           Rejects e \<Rightarrow> saveFinally r (saveFailed e s1)
         | Resolves name \<Rightarrow>
             (let s2 = emit CaptureFrame
                         (s1\<lparr>appState := ANALYZING,
                             lastResponse := ''Saving as '' @ dq @ name @ dq @ ''...''\<rparr>)
              in if noImage (frame ev)
                 then saveFinally r (saveFailed (JsError ''Could not capture image.'') s2)
                 else saveFinally r
                        (speak (''Okay, I've saved this as '' @ name @ ''.'')
                           ((emit (SaveItem name) s2)\<lparr>personalItems := storedItems ev\<rparr>))))"

definition followUpFinally :: "app \<Rightarrow> app \<Rightarrow> app" where
  "followUpFinally r s = (if isVoiceCommandActive r then emit ResumeListening s else s)"

definition followUpFailed :: "thrown \<Rightarrow> app \<Rightarrow> app" where
  "followUpFailed e s =
     (speak ''Sorry, I couldn't get that. Please try again.''
        (s\<lparr>error := Some (''Question failed: '' @ stringOr ''Could not hear you clearly.'' e)\<rparr>))
       \<lparr>appState := AWAITING_FOLLOWUP\<rparr>"

definition handleFollowUpQuestion :: "app \<Rightarrow> env \<Rightarrow> app \<Rightarrow> app" where
  "handleFollowUpQuestion r ev s =
     (if appState r \<noteq> AWAITING_FOLLOWUP \<and> appState r \<noteq> IDLE then s
      else if noImage (lastAnalyzedImage r)
      then speak ''Please describe a scene first before asking a question.'' s
      else (let s1 = emit ListenForInput
                       (speak ''What's your question?''
                          ((cancel (emit PauseListening s))\<lparr>lastResponse := ''What's your question?''\<rparr>))
            in case heard ev of
                 Rejects e \<Rightarrow> followUpFinally r (followUpFailed e s1)
               | Resolves question \<Rightarrow>
                   (let s2 = emit (Call (AskFollowUpQuestion question))
                               (s1\<lparr>appState := ANALYZING,
                                   lastResponse := ''Thinking about: '' @ dq @ question @ dq @ ''...''\<rparr>)
                    in case reply ev of
                         Rejects e \<Rightarrow> followUpFinally r (followUpFailed e s2)
                       | Resolves (text, history) \<Rightarrow>
                           followUpFinally r
                             ((speak text (s2\<lparr>lastResponse := text\<rparr>))
                                \<lparr>conversationHistory := history, appState := AWAITING_FOLLOWUP\<rparr>))))"

text \<open>\<open>handleAskGemini(query)\<close>; a missing query is the empty string.\<close>

definition askGeminiWith :: "string \<Rightarrow> env \<Rightarrow> app \<Rightarrow> app" where
  "askGeminiWith q ev s =
     (let s1 = emit (Call (AskGemini q))
                 (s\<lparr>appState := ANALYZING,
                    lastResponse := ''Thinking about: '' @ dq @ q @ dq @ ''...''\<rparr>)
      in case reply ev of
           Resolves (response, history) \<Rightarrow>
             (speak response (s1\<lparr>lastResponse := response\<rparr>))\<lparr>appState := IDLE\<rparr>
         | Rejects e \<Rightarrow>
             (let m = errorMessage ''An unknown error occurred.'' e
              in (speak (''Error: '' @ m) (s1\<lparr>error := Some m\<rparr>))\<lparr>appState := IDLE\<rparr>))"

definition handleAskGemini :: "string \<Rightarrow> env \<Rightarrow> app \<Rightarrow> app" where
  "handleAskGemini q ev s =
     (if q = []
      then (let s1 = emit ListenForInput (speak ''What is your question?'' s)
            in case heard ev of
                 Rejects e \<Rightarrow>
                   speak ''Sorry, I didn't catch that.''
                     (s1\<lparr>error := Some ''Could not hear your question.''\<rparr>)
               | Resolves q' \<Rightarrow> askGeminiWith q' ev s1)
      else askGeminiWith q ev s)"

text \<open>\<open>handleDeleteItem\<close>; \<open>personalDB.deleteItem\<close> may throw.\<close>

definition handleDeleteItem :: "string \<Rightarrow> env \<Rightarrow> app \<Rightarrow> app \<times> completion" where
  "handleDeleteItem name ev s =
     (let s1 = emit (DeleteItem name) s
      in case deleted ev of
           Rejects e \<Rightarrow> (s1, Threw e)
         | Resolves updatedItems \<Rightarrow>
             (speak (''Okay, I've deleted '' @ name @ ''.'')
                (s1\<lparr>personalItems := updatedItems,
                    lastResponse := ''Okay, I've deleted '' @ name @ ''.''\<rparr>),
              Returned))"

section \<open>handleAction and handleVoiceCommand (App.tsx)\<close>

fun joinComma :: "string list \<Rightarrow> string" where
  "joinComma [] = []"
| "joinComma [x] = x"
| "joinComma (x # y # ys) = x @ '', '' @ joinComma (y # ys)"

definition manageItemsMessage :: "string list \<Rightarrow> string" where
  "manageItemsMessage items =
     (if length items > 0
      then ''Here are your saved items: '' @ joinComma items
             @ ''. You can say 'delete' followed by the name.''
      else ''You have no saved items.'')"

text \<open>The first statements of \<open>handleAction\<close>: the universal stop for any new action.\<close>

definition stopActiveLoops :: "app \<Rightarrow> ActionType \<Rightarrow> app \<Rightarrow> app" where
  "stopActiveLoops r action s =
     (let s1 = (if isLive r then stopLiveCommentary s else s);
          s2 = (if isFindingActive s1 then stopObjectFinder s1 else s1)
      in if action \<noteq> ASK_QUESTION
         then s2\<lparr>conversationHistory := [], lastAnalyzedImage := None\<rparr>
         else s2)"

text \<open>
  \<open>actionMap[action]\<close>, awaited. The two loops are started without \<open>await\<close>: the handler
  goes on as soon as the loop reaches its first \<open>await\<close>, and does not return as long as
  the loop has not reached one.
\<close>

fun actionMap :: "app \<Rightarrow> ActionType \<Rightarrow> payload \<Rightarrow> env \<Rightarrow> app \<Rightarrow> app \<times> completion" where
  "actionMap r DESCRIBE_SCENE p ev s = (processAction r DescribeScene True ev s, Returned)"
| "actionMap r READ_TEXT p ev s = (processAction r ReadTextFromImage False ev s, Returned)"
| "actionMap r IDENTIFY_PEOPLE p ev s = (processAction r IdentifyPeople True ev s, Returned)"
| "actionMap r CHECK_HAZARDS p ev s = (processAction r CheckForHazards False ev s, Returned)"
| "actionMap r ANALYZE_TERRAIN p ev s = (processTerrainAction r ev s, Returned)"
| "actionMap r SAVE_ITEM p ev s = (handleSaveItem r ev s, Returned)"
| "actionMap r ActionType.LIVE_COMMENTARY p ev s =
     (if isLive r then (stopLiveCommentary s, Returned)
      else (fst (runLiveCommentary (frame ev) s), Returned))"
| "actionMap r FIND_ITEM p ev s =
     (if itemName p \<noteq> []
      then (case runObjectFinder (itemName p) (finderFrames ev) s of
              (s', FinderRunning) \<Rightarrow> (s', Hung)
            | (s', pc) \<Rightarrow> (s', Returned))
      else (s, Returned))"
| "actionMap r MANAGE_ITEMS p ev s =
     (speak (manageItemsMessage (personalItems r))
        (s\<lparr>appState := MANAGING_ITEMS, lastResponse := manageItemsMessage (personalItems r)\<rparr>),
      Returned)"
| "actionMap r HELP p ev s = (speak (helpText ev) (s\<lparr>lastResponse := helpText ev\<rparr>), Returned)"
| "actionMap r ASK_QUESTION p ev s = (handleFollowUpQuestion r ev s, Returned)"
| "actionMap r ASK_GEMINI p ev s = (handleAskGemini (query p) ev s, Returned)"
| "actionMap r DELETE_ITEM p ev s =
     (if appState r = MANAGING_ITEMS \<and> itemName p \<noteq> []
      then handleDeleteItem (itemName p) ev s
      else (s, Returned))"
| "actionMap r CLOSE_MANAGEMENT p ev s =
     (if appState r = MANAGING_ITEMS
      then (cancel (s\<lparr>appState := IDLE, lastResponse := ''Closed item management.''\<rparr>), Returned)
      else (s, Returned))"
| "actionMap r STOP p ev s = (s, Returned)"
| "actionMap r UNKNOWN p ev s = (s, Returned)"

definition handleAction :: "app \<Rightarrow> ActionType \<Rightarrow> payload \<Rightarrow> env \<Rightarrow> app \<Rightarrow> app \<times> completion" where
  "handleAction r action p ev s = actionMap r action p ev (stopActiveLoops r action s)"

definition stopWords :: "string list" where
  "stopWords = [''stop'', ''cancel'', ''be quiet'', ''enough'', ''that's enough'']"

text \<open>\<open>stopWords.some(word => transcript.toLowerCase().includes(word))\<close>\<close>

definition hasStopWord :: "string \<Rightarrow> bool" where
  "hasStopWord t = list_ex (\<lambda>word. str_includes (toLowerCase t) word) stopWords"

definition stopCommand :: "app \<Rightarrow> app" where
  "stopCommand s =
     emit ResumeAfterProcessing
       (speak ''Okay, stopped.''
          ((stopObjectFinder (stopLiveCommentary (cancel s)))
             \<lparr>appState := IDLE, lastResponse := ''Okay, stopped.''\<rparr>))"

text \<open>The body of the \<open>try\<close>, after \<open>await interpretCommand(...)\<close>.\<close>

definition commandBody :: "app \<Rightarrow> string \<Rightarrow> env \<Rightarrow> app \<Rightarrow> app \<times> completion" where
  "commandBody r t ev s =
     (case interpreted ev of
        Rejects e \<Rightarrow> (s, Threw e)
      | Resolves None \<Rightarrow> (s, Threw (JsError ''Could not understand the command.''))
      | Resolves (Some (action, p)) \<Rightarrow>
          (if action = UNKNOWN then (handleAskGemini t ev s, Returned)
           else if action = STOP then (s, Returned)
           else handleAction r action p ev s))"

definition commandCatch :: "thrown \<Rightarrow> app \<Rightarrow> app" where
  "commandCatch e s =
     (let m = errorMessage ''Could not understand your command.'' e
      in speak (''Sorry, '' @ m) (s\<lparr>error := Some m\<rparr>))"

definition commandFinally :: "AppState \<Rightarrow> app \<Rightarrow> app" where
  "commandFinally preCommandState s =
     emit ResumeAfterProcessing
       (s\<lparr>appState :=
            (if appState s = INTERPRETING_COMMAND \<or> appState s = ANALYZING
             then (if preCommandState = MANAGING_ITEMS then MANAGING_ITEMS else IDLE)
             else appState s)\<rparr>)"

text \<open>
  \<open>handleVoiceCommand(transcript, isFinal)\<close> is suspended at \<open>await interpretCommand(...)\<close>,
  in the state \<open>beginInterpreting t s\<close>. \<open>commandContinue r t ev s\<close> is what it does when
  the interpretation arrives: \<open>r\<close> is the render the transcript arrived in, whose closures
  (\<open>appState\<close> as \<open>preCommandState\<close>, \<open>handleAction\<close>) go on running, and \<open>s\<close> is the
  state at that moment, which other transcripts and actions may have changed in the
  meantime.
\<close>

definition beginInterpreting :: "string \<Rightarrow> app \<Rightarrow> app" where
  "beginInterpreting t s =
     emit (InterpretCommand t (personalItems s) (appState s))
       (s\<lparr>appState := INTERPRETING_COMMAND,
          lastResponse := ''Interpreting: '' @ dq @ t @ dq @ ''...'',
          error := None\<rparr>)"

definition commandContinue :: "app \<Rightarrow> string \<Rightarrow> env \<Rightarrow> app \<Rightarrow> app \<times> completion" where
  "commandContinue r t ev s =
     (let preCommandState = appState r
      in case commandBody r t ev s of
           (s2, Hung) \<Rightarrow> (s2, Hung)
         | (s2, Threw e) \<Rightarrow> (commandFinally preCommandState (commandCatch e s2), Returned)
         | (s2, Returned) \<Rightarrow> (commandFinally preCommandState s2, Returned))"

text \<open>
  \<open>handleVoiceCommand t final ev s\<close> is the whole processing of one transcript when nothing
  else happens while the interpretation is awaited: the state \<open>s\<close> at entry is the render
  the closures read, and the continuation runs in the state the call itself has left. The
  interrupt path and the busy check do not await anything.
\<close>

definition handleVoiceCommand :: "string \<Rightarrow> bool \<Rightarrow> env \<Rightarrow> app \<Rightarrow> app \<times> completion" where
  "handleVoiceCommand t final ev s =
     (if hasStopWord t then (stopCommand s, Returned)
      else if isBusy s \<or> \<not> final then (s, Returned)
      else commandContinue s t ev (beginInterpreting t s))"

text \<open>The effects a run has added to those of the state it started from.\<close>

definition newEffects :: "app \<Rightarrow> app \<Rightarrow> effect list" where
  "newEffects s s' = drop (length (effects s)) (effects s')"

definition isInterpret :: "effect \<Rightarrow> bool" where
  "isInterpret e = (case e of InterpretCommand t ns st \<Rightarrow> True | _ \<Rightarrow> False)"

definition isSpeak :: "effect \<Rightarrow> bool" where
  "isSpeak e = (case e of Speak t \<Rightarrow> True | _ \<Rightarrow> False)"

definition isCall :: "effect \<Rightarrow> bool" where
  "isCall e = (case e of Call c \<Rightarrow> True | _ \<Rightarrow> False)"

definition isDelay :: "effect \<Rightarrow> bool" where
  "isDelay e = (case e of Delay n \<Rightarrow> True | _ \<Rightarrow> False)"

section \<open>Notions used by the properties\<close>

text \<open>
  A transcript contains an interrupt word as a case-insensitive substring: some contiguous
  part of it, lowercased, is a word of the vocabulary.
\<close>

definition mentionsInterruptWord :: "string \<Rightarrow> bool" where
  "mentionsInterruptWord t = (\<exists>w \<in> set stopWords. \<exists>u. sublist u t \<and> toLowerCase u = w)"

text \<open>The busy state the cleanup restores: the state before interpretation began, if it
  was \<open>MANAGING_ITEMS\<close>, otherwise \<open>IDLE\<close>.\<close>

definition restored :: "AppState \<Rightarrow> AppState" where
  "restored pre = (if pre = MANAGING_ITEMS then MANAGING_ITEMS else IDLE)"

text \<open>The component state \<open>isLive\<close> agrees with the ref, and at most one loop flag is set.\<close>

definition loopsConsistent :: "app \<Rightarrow> bool" where
  "loopsConsistent s = (isLive s = isLiveActive s \<and> \<not> (isLiveActive s \<and> isFindingActive s))"

text \<open>An application at rest with a ready camera, and the answers of two example commands.\<close>

definition idleApp :: app where
  "idleApp =
     \<lparr>appState = IDLE, personalItems = [], lastResponse = [], error = None, isLive = False,
      findingItemName = None, isVoiceCommandActive = True, lastAnalyzedImage = None,
      conversationHistory = [], isCameraReady = True, isFindingActive = False,
      isLiveActive = False, effects = []\<rparr>"

definition noPayload :: payload where
  "noPayload = \<lparr>itemName = [], query = []\<rparr>"

definition describeEnv :: env where
  "describeEnv =
     \<lparr>interpreted = Resolves (Some (DESCRIBE_SCENE, noPayload)), frame = Some ''frame'',
      finderFrames = [], heard = Rejects JsOther,
      reply = Resolves (''A kitchen counter.'', []), helpText = [], storedItems = [],
      deleted = Resolves []\<rparr>"

text \<open>
  \<open>quiet s s'\<close>: \<open>s'\<close> has the effects of \<open>s\<close> followed by more, none of them the resume
  signal. \<open>sameFlags s s'\<close>: the loop flags and \<open>isLive\<close> are the same in both.
\<close>

definition quiet :: "app \<Rightarrow> app \<Rightarrow> bool" where
  "quiet s s' = (\<exists>es. effects s' = effects s @ es \<and> ResumeAfterProcessing \<notin> set es)"

definition sameFlags :: "app \<Rightarrow> app \<Rightarrow> bool" where
  "sameFlags s s' =
     (isLive s' = isLive s \<and> isLiveActive s' = isLiveActive s
      \<and> isFindingActive s' = isFindingActive s)"

text \<open>
  The application with the commentary loop started and waiting for its first analysis,
  and with the object search for ``keys'' started and waiting for its first analysis.
\<close>

definition commentaryApp :: app where
  "commentaryApp = fst (runLiveCommentary (Some ''frame'') idleApp)"

definition searchingApp :: app where
  "searchingApp = fst (runObjectFinder ''keys'' [Some ''frame''] idleApp)"

definition keysPayload :: payload where
  "keysPayload = \<lparr>itemName = ''keys'', query = []\<rparr>"

definition keysEnv :: env where
  "keysEnv =
     \<lparr>interpreted = Resolves (Some (FIND_ITEM, keysPayload)), frame = Some ''frame'',
      finderFrames = [Some ''frame''], heard = Rejects JsOther,
      reply = Resolves (''I see your keys.'', []), helpText = [], storedItems = [],
      deleted = Resolves []\<rparr>"

section \<open>Properties of the Recognition Lifecycle Manager\<close>

lemma find_snoc_fresh:
  "\<forall>t \<in> set ts. \<not> P t \<Longrightarrow> P x \<Longrightarrow> find P (ts @ [x]) = Some x"
  by (induction ts) auto

text \<open>
  The guard of the hook itself: while a transcript is being processed, the end of the
  session schedules no restart, and a restart timer scheduled earlier does not start the
  engine.
\<close>

lemma onend_guard_while_processing:
  assumes "isProcessingTranscript s"
  shows "onend s = clearRestartTimer (s\<lparr>isListening := False\<rparr>)"
    and "calls (onend s) = calls s"
    and "runTimer OnEndRestart s = s"
  using assms
  by (simp_all add: onend_def clearRestartTimer_def clearTimeout_def Let_def split: option.splits)

text \<open>
  Claim C1. The first part of the claim holds: on a final result under the single-shot
  model the manager sets \<open>isProcessingTranscript\<close> and stops the engine before it hands
  the transcript over. The rest does not hold in \<open>App\<close>. A single-shot session is
  listening, voice commands are active and nothing is being spoken; a final result
  arrives; the engine reports the end of the session. \<open>onend\<close> sets \<open>isListening\<close> to
  false and schedules nothing, but the render that follows runs the effect of \<open>App\<close>,
  which calls \<open>resumeListening\<close>; its timer calls \<open>start\<close> while
  \<open>isProcessingTranscript\<close> is still set, before any resume signal. After the resume
  signal the engine is started once more.
\<close>

theorem resume_effect_restarts_before_resume_signal:
  "let s0 = platform_step True False (startListening True False (mounted True)) EngineStarted;
       (s1, out) = onresult s0 \<lparr>transcript = ''describe the scene'', isFinal = True, confidence = None\<rparr>;
       s2 = platform_step True False s1 EndOfSession;
       s3 = platform_step True False s2 (TimerFires 1);
       s4 = resumeAfterProcessing s3;
       s5 = platform_step True False s4 (TimerFires 2)
   in isMobile s0 \<and> isListening s0 \<and> timers s0 = [] \<and> calls s0 = [EngineStart]
      \<and> out = Some (''describe the scene'', True, 0)
      \<and> isProcessingTranscript s1 \<and> calls s1 = [EngineStart, EngineStop]
      \<and> timers s2 = [\<lparr>tid = 1, delay = 100, job = ResumeListeningStart\<rparr>]
      \<and> isProcessingTranscript s3 \<and> calls s3 = [EngineStart, EngineStop, EngineStart]
      \<and> calls s5 = [EngineStart, EngineStop, EngineStart, EngineStart]"
proof -
  have t: "toLowerCase (trim ''describe the scene'') = ''describe the scene''" by code_simp
  show ?thesis
    by (simp add: t mounted_def startListening_def onstart_def onend_def onresult_def
        afterRender_def listeningEffect_def resumeListening_def resumeAfterProcessing_def
        fireTimer_def clearRestartTimer_def clearTimeout_def setTimeout_def
        engineStart_def engineStop_def Let_def)
qed

text \<open>
  \<open>resumeListening\<close> does not read \<open>isStoppedManually\<close>: on a session that is not
  listening, its timer starts the engine.
\<close>

lemma resume_without_manual_stop_guard:
  assumes "hasRecognition s" "\<not> isListening s" "\<forall>t \<in> set (timers s). tid t \<noteq> nextTimerId s"
  shows "calls (fireTimer (nextTimerId s) (resumeListening s)) = calls s @ [EngineStart]"
proof -
  have "find (\<lambda>t. tid t = nextTimerId s)
          (timers s @ [\<lparr>tid = nextTimerId s, delay = 100, job = ResumeListeningStart\<rparr>])
        = Some \<lparr>tid = nextTimerId s, delay = 100, job = ResumeListeningStart\<rparr>"
    using assms(3) by (intro find_snoc_fresh) auto
  then show ?thesis
    using assms(1,2) by (simp add: resumeListening_def fireTimer_def setTimeout_def engineStart_def)
qed

text \<open>
  Claim C8. The claim says that \<open>resume\<close> does not start the engine of a manually stopped
  session. The code does: a session started, then stopped for good by the permission error
  \<open>not-allowed\<close> (or by \<open>stopListening\<close>), has the manual-stop flag set when the engine
  reports its end; \<open>resumeListening\<close> on it schedules a timer, and the timer calls
  \<open>start\<close> on the engine.
\<close>

theorem resume_starts_manually_stopped_session:
  "isStoppedManually (onend (onerror ''not-allowed'' (onstart (startListening True False (mounted True)))))
   \<and> calls (onend (onerror ''not-allowed'' (onstart (startListening True False (mounted True)))))
      = [EngineStart]
   \<and> calls (fireTimer 1 (resumeListening
        (onend (onerror ''not-allowed'' (onstart (startListening True False (mounted True)))))))
      = [EngineStart, EngineStart]
   \<and> isStoppedManually (onend (stopListening (onstart (startListening True False (mounted True)))))
   \<and> calls (fireTimer 1 (resumeListening
        (onend (stopListening (onstart (startListening True False (mounted True)))))))
      = [EngineStart, EngineStop, EngineStart]"
  by (simp add: mounted_def startListening_def onstart_def onerror_def onend_def stopListening_def
      resumeListening_def fireTimer_def clearRestartTimer_def clearTimeout_def setTimeout_def
      engineStart_def engineStop_def Let_def)

text \<open>
  Claim C9. A transcript handed to the Coordinator, interim or final, is the engine's
  transcript trimmed and lowercased, with the engine's finality; a result whose trimmed
  text is empty is not handed over, and leaves the session as it is: no flag set, no call
  to the engine, under either listening model.
\<close>

theorem delivered_transcript_normalised:
  "(\<forall>t f c. snd (onresult s r) = Some (t, f, c) \<longrightarrow>
       t = toLowerCase (trim (transcript r)) \<and> f = isFinal r \<and> trim (transcript r) \<noteq> [])
   \<and> (trim (transcript r) = [] \<longrightarrow> onresult s r = (s, None))"
  by (auto simp: onresult_def Let_def toLowerCase_def split: if_splits)

theorem delivered_transcript_normalised_witness:
  "snd (onresult (mounted True) \<lparr>transcript = '' Read This  '', isFinal = False, confidence = None\<rparr>)
     = Some (''read this'', False, 0)
   \<and> trim (transcript \<lparr>transcript = ''   '', isFinal = True, confidence = None\<rparr>) = []
   \<and> onresult (mounted True) \<lparr>transcript = ''   '', isFinal = True, confidence = None\<rparr>
     = (mounted True, None)"
proof -
  have a: "toLowerCase (trim '' Read This  '') = ''read this''" by code_simp
  have b: "trim ''   '' = []" by code_simp
  show ?thesis
    using delivered_transcript_normalised
        [of "mounted True" "\<lparr>transcript = '' Read This  '', isFinal = False, confidence = None\<rparr>"]
      delivered_transcript_normalised
        [of "mounted True" "\<lparr>transcript = ''   '', isFinal = True, confidence = None\<rparr>"]
    by (simp add: onresult_def Let_def a b)
qed

section \<open>Properties of the Command Coordinator\<close>

lemma str_includes_sublist: "str_includes s w = sublist w s"
  by (induction s) (auto simp: sublist_Cons_right)

lemma sublist_map_iff: "sublist w (map f t) \<longleftrightarrow> (\<exists>u. sublist u t \<and> map f u = w)"
proof
  assume "sublist w (map f t)"
  then obtain ps ss where "map f t = ps @ w @ ss" by (auto simp: sublist_def)
  then obtain a b c where "t = a @ b @ c" "map f b = w"
    by (auto simp: map_eq_append_conv append_eq_map_conv) 
  then show "\<exists>u. sublist u t \<and> map f u = w" by (auto simp: sublist_def)
next
  assume "\<exists>u. sublist u t \<and> map f u = w"
  then obtain u ps ss where "w = map f u" "t = ps @ u @ ss" by (auto simp: sublist_def)
  then have "map f t = map f ps @ w @ map f ss" by simp
  then show "sublist w (map f t)" unfolding sublist_def by blast
qed

lemma hasStopWord_iff: "hasStopWord t = mentionsInterruptWord t"
  by (simp add: hasStopWord_def mentionsInterruptWord_def list_ex_iff str_includes_sublist
      toLowerCase_def sublist_map_iff)

lemma stopLiveCommentary_flags:
  "\<not> isLiveActive (stopLiveCommentary s)" "isFindingActive (stopLiveCommentary s) = isFindingActive s"
  by (simp_all add: stopLiveCommentary_def cancel_def emit_def)

lemma stopObjectFinder_flags:
  "\<not> isFindingActive (stopObjectFinder s)" "isLiveActive (stopObjectFinder s) = isLiveActive s"
  by (simp_all add: stopObjectFinder_def cancel_def emit_def)

lemma stopCommand_effects:
  "effects (stopCommand s) =
     effects s @ [Cancel] @ (if isLiveActive s then [Cancel] else [])
       @ (if isFindingActive s then [Cancel] else []) @ [Speak ''Okay, stopped.'', ResumeAfterProcessing]"
  by (simp add: stopCommand_def stopLiveCommentary_def stopObjectFinder_def cancel_def emit_def speak_def)

lemma stopCommand_state:
  "appState (stopCommand s) = IDLE" "\<not> isLiveActive (stopCommand s)" "\<not> isFindingActive (stopCommand s)"
  by (simp_all add: stopCommand_def stopLiveCommentary_def stopObjectFinder_def cancel_def emit_def speak_def)

text \<open>
  Claim C2. A transcript, interim or final, that contains a word of the interrupt
  vocabulary as a case-insensitive substring is handled the same way in every state of
  the application: speech output is cancelled, both loop flags are cleared, the busy state
  is \<open>IDLE\<close>, ``Okay, stopped.'' is spoken, the resume signal is given exactly once, and
  the interpretation collaborator is not called.
\<close>

theorem interrupt_precedence:
  assumes "mentionsInterruptWord t"
  shows "let (s', c) = handleVoiceCommand t final ev s
         in c = Returned \<and> appState s' = IDLE \<and> \<not> isLiveActive s' \<and> \<not> isFindingActive s'
            \<and> newEffects s s' =
                 [Cancel] @ (if isLiveActive s then [Cancel] else [])
                 @ (if isFindingActive s then [Cancel] else [])
                 @ [Speak ''Okay, stopped.'', ResumeAfterProcessing]
            \<and> count_list (newEffects s s') ResumeAfterProcessing = 1
            \<and> \<not> list_ex isInterpret (newEffects s s')"
  using assms
  by (simp add: hasStopWord_iff[symmetric] handleVoiceCommand_def stopCommand_state
      stopCommand_effects newEffects_def isInterpret_def)

theorem interrupt_precedence_witness:
  "mentionsInterruptWord ''please STOP now''
   \<and> isLiveActive commentaryApp \<and> appState commentaryApp = LIVE_COMMENTARY
   \<and> snd (handleVoiceCommand ''please STOP now'' False describeEnv commentaryApp) = Returned
   \<and> appState (fst (handleVoiceCommand ''please STOP now'' False describeEnv commentaryApp)) = IDLE
   \<and> \<not> isLiveActive (fst (handleVoiceCommand ''please STOP now'' False describeEnv commentaryApp))
   \<and> newEffects commentaryApp (fst (handleVoiceCommand ''please STOP now'' False describeEnv commentaryApp))
        = [Cancel, Cancel, Speak ''Okay, stopped.'', ResumeAfterProcessing]"
proof -
  have h: "hasStopWord ''please STOP now''" by code_simp
  have m: "mentionsInterruptWord ''please STOP now''" using h by (simp add: hasStopWord_iff)
  have a: "isLiveActive commentaryApp" "appState commentaryApp = LIVE_COMMENTARY"
    "\<not> isFindingActive commentaryApp"
    by code_simp+
  show ?thesis
    using interrupt_precedence [OF m, of False describeEnv commentaryApp] m a
    by (simp add: split_beta)
qed

text \<open>
  Claim C4. A transcript without interrupt word that is not final, or that arrives while
  the busy state is none of \<open>IDLE\<close>, \<open>AWAITING_FOLLOWUP\<close>, \<open>MANAGING_ITEMS\<close>, leaves the
  application exactly as it was: no interpretation, no change of the busy state. A
  transcript that is not final never reaches the interpretation collaborator, with or
  without interrupt word.
\<close>

theorem busy_gate:
  "(\<not> mentionsInterruptWord t \<and> (\<not> final \<or> appState s \<notin> {IDLE, AWAITING_FOLLOWUP, MANAGING_ITEMS})
      \<longrightarrow> handleVoiceCommand t final ev s = (s, Returned))
   \<and> \<not> list_ex isInterpret (newEffects s (fst (handleVoiceCommand t False ev s)))"
proof -
  have busy: "isBusy s \<longleftrightarrow> appState s \<notin> {IDLE, AWAITING_FOLLOWUP, MANAGING_ITEMS}"
    by (cases "appState s") (simp_all add: isBusy_def)
  show ?thesis
    by (auto simp: hasStopWord_iff[symmetric] handleVoiceCommand_def busy stopCommand_effects
        newEffects_def isInterpret_def)
qed

theorem busy_gate_witness:
  "\<not> mentionsInterruptWord ''describe the scene''
   \<and> handleVoiceCommand ''describe the scene'' False describeEnv idleApp = (idleApp, Returned)
   \<and> appState commentaryApp \<notin> {IDLE, AWAITING_FOLLOWUP, MANAGING_ITEMS}
   \<and> handleVoiceCommand ''describe the scene'' True describeEnv commentaryApp
        = (commentaryApp, Returned)"
proof -
  have h: "\<not> hasStopWord ''describe the scene''" by code_simp
  have m: "\<not> mentionsInterruptWord ''describe the scene''" using h by (simp add: hasStopWord_iff)
  have a: "appState commentaryApp = LIVE_COMMENTARY" by code_simp
  show ?thesis
    using busy_gate [of "''describe the scene''" False idleApp describeEnv]
      busy_gate [of "''describe the scene''" True commentaryApp describeEnv] m a
    by simp
qed

text \<open>No handler gives the resume signal, and every handler only adds effects.\<close>

lemma quiet_refl: "quiet s s" by (simp add: quiet_def)

lemma quiet_trans: "quiet a b \<Longrightarrow> quiet b c \<Longrightarrow> quiet a c"
  by (auto simp: quiet_def)

lemma quiet_emit: "e \<noteq> ResumeAfterProcessing \<Longrightarrow> quiet s (emit e s)"
  by (simp add: quiet_def emit_def)

lemma quiet_same_effects: "effects s' = effects s \<Longrightarrow> quiet s s'"
  by (simp add: quiet_def)

lemma quiet_processAction: "quiet s (processAction r c b ev s)"
  by (simp add: quiet_def processAction_def emit_def cancel_def speak_def Let_def
      split: outcome.splits prod.splits)

lemma quiet_processTerrainAction: "quiet s (processTerrainAction r ev s)"
  by (simp add: quiet_def processTerrainAction_def emit_def cancel_def speak_def Let_def
      split: outcome.splits prod.splits)

lemma quiet_handleSaveItem: "quiet s (handleSaveItem r ev s)"
  by (simp add: quiet_def handleSaveItem_def saveFinally_def saveFailed_def emit_def cancel_def
      speak_def Let_def split: outcome.splits prod.splits)

lemma quiet_handleFollowUpQuestion: "quiet s (handleFollowUpQuestion r ev s)"
  by (simp add: quiet_def handleFollowUpQuestion_def followUpFinally_def followUpFailed_def
      emit_def cancel_def speak_def Let_def split: outcome.splits prod.splits)

lemma quiet_handleAskGemini: "quiet s (handleAskGemini q ev s)"
  by (simp add: quiet_def handleAskGemini_def askGeminiWith_def emit_def cancel_def
      speak_def Let_def split: outcome.splits prod.splits)

lemma quiet_handleDeleteItem: "quiet s (fst (handleDeleteItem n ev s))"
  by (simp add: quiet_def handleDeleteItem_def emit_def speak_def Let_def split: outcome.splits)

lemma quiet_stopLiveCommentary: "quiet s (stopLiveCommentary s)"
  by (simp add: quiet_def stopLiveCommentary_def emit_def cancel_def)

lemma quiet_stopObjectFinder: "quiet s (stopObjectFinder s)"
  by (simp add: quiet_def stopObjectFinder_def emit_def cancel_def)

lemma quiet_liveIterate: "quiet s (fst (liveIterate fr s))"
  by (simp add: quiet_def liveIterate_def emit_def Let_def)

lemma quiet_runLiveCommentary: "quiet s (fst (runLiveCommentary fr s))"
  by (simp add: quiet_def runLiveCommentary_def liveIterate_def emit_def speak_def Let_def)

lemma quiet_finderIterate: "quiet s (fst (finderIterate n frs s))"
proof (induction frs arbitrary: s)
  case Nil
  then show ?case by (simp add: quiet_def)
next
  case (Cons fr frs)
  show ?case
  proof (cases "isFindingActive s \<and> noImage fr")
    case True
    then have e: "fst (finderIterate n (fr # frs) s) = fst (finderIterate n frs (emit CaptureFrame s))"
      by (simp add: Let_def)
    have c: "quiet s (emit CaptureFrame s)" by (simp add: quiet_emit)
    show ?thesis unfolding e by (rule quiet_trans[OF c Cons.IH])
  next
    case False
    then show ?thesis by (auto simp: quiet_def emit_def Let_def)
  qed
qed

lemma quiet_runObjectFinder: "quiet s (fst (runObjectFinder n frs s))"
proof (cases "isFindingActive s")
  case True
  then show ?thesis by (simp add: runObjectFinder_def quiet_refl)
next
  case False
  define s1 where "s1 = speak (finderStartMessage n)
                (s\<lparr>isFindingActive := True, findingItemName := Some n,
                   appState := FINDING_ITEM, lastResponse := finderStartMessage n\<rparr>)"
  have a: "quiet s s1" by (simp add: s1_def quiet_def speak_def emit_def)
  have b: "quiet s1 (fst (finderIterate n frs s1))" by (rule quiet_finderIterate)
  have eq: "fst (runObjectFinder n frs s) = fst (finderIterate n frs s1)"
    using False by (simp add: runObjectFinder_def s1_def)
  show ?thesis unfolding eq by (rule quiet_trans[OF a b])
qed

lemma quiet_stopActiveLoops: "quiet s (stopActiveLoops r a s)"
proof -
  define s1 where "s1 = (if isLive r then stopLiveCommentary s else s)"
  define s2 where "s2 = (if isFindingActive s1 then stopObjectFinder s1 else s1)"
  have a: "quiet s s1" by (simp add: s1_def quiet_stopLiveCommentary quiet_refl)
  have b: "quiet s1 s2" by (simp add: s2_def quiet_stopObjectFinder quiet_refl)
  have c: "quiet s s2" by (rule quiet_trans[OF a b])
  have "effects (stopActiveLoops r a s) = effects s2"
    by (simp add: stopActiveLoops_def Let_def s1_def s2_def)
  with c show ?thesis by (simp add: quiet_def)
qed

lemma quiet_actionMap: "quiet s (fst (actionMap r a p ev s))"
proof (cases a)
  case FIND_ITEM
  then show ?thesis
    using quiet_runObjectFinder[of s "itemName p" "finderFrames ev"]
    by (auto simp: quiet_refl split: prod.splits finder_pc.splits)
qed (simp_all add: quiet_processAction quiet_processTerrainAction quiet_handleSaveItem
      quiet_handleFollowUpQuestion quiet_handleAskGemini quiet_handleDeleteItem
      quiet_stopLiveCommentary quiet_runLiveCommentary quiet_refl,
     simp_all add: quiet_def speak_def emit_def cancel_def)

lemma quiet_handleAction: "quiet s (fst (handleAction r a p ev s))"
  unfolding handleAction_def by (rule quiet_trans[OF quiet_stopActiveLoops quiet_actionMap])

lemma quiet_commandBody: "quiet s (fst (commandBody r t ev s))"
  by (auto simp: commandBody_def quiet_refl quiet_handleAskGemini quiet_handleAction
      split: outcome.splits option.splits)

text \<open>When a command does not return: only the object search can keep its handler busy.\<close>

lemma finderIterate_running:
  "snd (finderIterate n frs s) = FinderRunning \<longleftrightarrow> isFindingActive s \<and> list_all noImage frs"
  by (induction frs arbitrary: s) (auto simp: Let_def emit_def)

lemma runObjectFinder_running:
  "snd (runObjectFinder n frs s) = FinderRunning \<longleftrightarrow> \<not> isFindingActive s \<and> list_all noImage frs"
  by (simp add: runObjectFinder_def finderIterate_running speak_def emit_def)

lemma stopActiveLoops_finding: "\<not> isFindingActive (stopActiveLoops r a s)"
  by (simp add: stopActiveLoops_def Let_def stopObjectFinder_def cancel_def emit_def)

lemma handleDeleteItem_not_hung: "snd (handleDeleteItem n ev s) \<noteq> Hung"
  by (simp add: handleDeleteItem_def Let_def split: outcome.splits)

lemma actionMap_hung:
  "snd (actionMap r a p ev s) = Hung \<longleftrightarrow>
     a = FIND_ITEM \<and> itemName p \<noteq> [] \<and> \<not> isFindingActive s \<and> list_all noImage (finderFrames ev)"
proof (cases a)
  case FIND_ITEM
  obtain s' pc where r: "runObjectFinder (itemName p) (finderFrames ev) s = (s', pc)"
    by (cases "runObjectFinder (itemName p) (finderFrames ev) s")
  have "pc = FinderRunning \<longleftrightarrow> \<not> isFindingActive s \<and> list_all noImage (finderFrames ev)"
    using runObjectFinder_running[of "itemName p" "finderFrames ev" s] by (simp add: r)
  then show ?thesis using FIND_ITEM by (cases pc) (auto simp: r)
qed (simp_all add: handleDeleteItem_not_hung)

lemma handleAction_hung:
  "snd (handleAction r a p ev s) = Hung \<longleftrightarrow>
     a = FIND_ITEM \<and> itemName p \<noteq> [] \<and> list_all noImage (finderFrames ev)"
  by (simp add: handleAction_def actionMap_hung stopActiveLoops_finding)

lemma commandBody_hung:
  "snd (commandBody r t ev s) = Hung \<longleftrightarrow>
     (\<exists>p. interpreted ev = Resolves (Some (FIND_ITEM, p)) \<and> itemName p \<noteq> []
          \<and> list_all noImage (finderFrames ev))"
  by (auto simp: commandBody_def handleAction_hung split: outcome.splits option.splits)

lemma actionMap_threw:
  "snd (actionMap r a p ev s) = Threw e \<Longrightarrow> appState (fst (actionMap r a p ev s)) = appState s"
  by (cases a) (auto simp: handleDeleteItem_def Let_def emit_def split: if_splits outcome.splits prod.splits finder_pc.splits)

lemma stopActiveLoops_idle:
  "\<not> isLive r \<Longrightarrow> \<not> isFindingActive s \<Longrightarrow> appState (stopActiveLoops r a s) = appState s"
  by (simp add: stopActiveLoops_def)

lemma commandBody_threw:
  assumes "snd (commandBody r t ev s) = Threw e" "\<not> isLive r" "\<not> isFindingActive s"
  shows "appState (fst (commandBody r t ev s)) = appState s"
proof (cases "interpreted ev")
  case (Rejects x)
  then show ?thesis by (simp add: commandBody_def)
next
  case (Resolves x)
  show ?thesis
  proof (cases x)
    case None
    then show ?thesis using Resolves by (simp add: commandBody_def)
  next
    case (Some ap)
    obtain a p where ap: "ap = (a, p)" by (cases ap)
    have ne: "a \<noteq> UNKNOWN" "a \<noteq> STOP"
      using assms(1) Resolves Some ap by (auto simp: commandBody_def)
    then have cb: "commandBody r t ev s = handleAction r a p ev s"
      using Resolves Some ap by (simp add: commandBody_def)
    have "snd (actionMap r a p ev (stopActiveLoops r a s)) = Threw e"
      using assms(1) by (simp add: cb handleAction_def)
    from actionMap_threw[OF this]
    have "appState (fst (handleAction r a p ev s)) = appState (stopActiveLoops r a s)"
      by (simp only: handleAction_def)
    then show ?thesis using assms(2,3) by (simp add: cb stopActiveLoops_idle)
  qed
qed

lemma newEffects_quiet:
  assumes "quiet s s'"
  shows "effects s' = effects s @ newEffects s s'" "ResumeAfterProcessing \<notin> set (newEffects s s')"
  using assms by (auto simp: quiet_def newEffects_def)

lemma quiet_beginInterpreting_body:
  "\<exists>es. effects (fst (commandBody r t ev (beginInterpreting t s)))
        = effects s @ InterpretCommand t (personalItems s) (appState s) # es
      \<and> ResumeAfterProcessing \<notin> set es"
proof -
  have "effects (beginInterpreting t s) = effects s @ [InterpretCommand t (personalItems s) (appState s)]"
    by (simp add: beginInterpreting_def emit_def)
  moreover obtain es where "effects (fst (commandBody r t ev (beginInterpreting t s)))
      = effects (beginInterpreting t s) @ es" "ResumeAfterProcessing \<notin> set es"
    using quiet_commandBody[of "beginInterpreting t s" r t ev] by (auto simp: quiet_def)
  ultimately show ?thesis by simp
qed

text \<open>
  Claim C3, as stated, fails: a final transcript interpreted as ``describe the scene'' ends
  in \<open>AWAITING_FOLLOWUP\<close>, although the state before was \<open>IDLE\<close>.
\<close>

theorem restore_to_idle_counterexample:
  "\<not> hasStopWord ''describe the scene'' \<and> \<not> isBusy idleApp
   \<and> appState idleApp \<noteq> MANAGING_ITEMS
   \<and> snd (handleVoiceCommand ''describe the scene'' True describeEnv idleApp) = Returned
   \<and> appState (fst (handleVoiceCommand ''describe the scene'' True describeEnv idleApp)) = AWAITING_FOLLOWUP
   \<and> appState (fst (handleVoiceCommand ''describe the scene'' True describeEnv idleApp)) \<noteq> IDLE"
proof -
  have h: "\<not> hasStopWord ''describe the scene''" by code_simp
  have a: "\<not> isBusy idleApp" "appState idleApp \<noteq> MANAGING_ITEMS" by code_simp+
  have b: "snd (handleVoiceCommand ''describe the scene'' True describeEnv idleApp) = Returned"
    "appState (fst (handleVoiceCommand ''describe the scene'' True describeEnv idleApp)) = AWAITING_FOLLOWUP"
    by code_simp+
  show ?thesis using h a b by simp
qed

text \<open>
  Claim C3, amended. A final transcript without interrupt word that arrives while the
  application is not busy reaches interpretation. Unless the action is \<open>FIND_ITEM\<close> and
  \<open>captureFrame\<close> keeps returning no image, its processing returns, whatever the outcome
  (success, interpretation failure, handler failure), and then: the interpretation
  collaborator has been called first and the resume signal is given last and exactly
  once; the busy state is restored (to \<open>MANAGING_ITEMS\<close> if that was the state before
  interpretation began, otherwise to \<open>IDLE\<close>) whenever the handler has left it at
  \<open>INTERPRETING_COMMAND\<close> or \<open>ANALYZING\<close>, and is the state the handler has set otherwise;
  it is never left at \<open>INTERPRETING_COMMAND\<close> or \<open>ANALYZING\<close>; it is restored when the
  interpretation fails, and when the handler raises an error while no loop is active.
\<close>

theorem cleanup_after_interpretation:
  assumes "\<not> mentionsInterruptWord t" "\<not> isBusy s"
    and "\<not> (\<exists>p. interpreted ev = Resolves (Some (FIND_ITEM, p)) \<and> itemName p \<noteq> []
               \<and> list_all noImage (finderFrames ev))"
  shows "let (s', c) = handleVoiceCommand t True ev s;
             (s2, c2) = commandBody s t ev (beginInterpreting t s)
         in c = Returned
          \<and> (\<exists>es. newEffects s s' = InterpretCommand t (personalItems s) (appState s) # es
                     @ [ResumeAfterProcessing] \<and> ResumeAfterProcessing \<notin> set es)
          \<and> count_list (newEffects s s') ResumeAfterProcessing = 1
          \<and> appState s' = (if appState s2 = INTERPRETING_COMMAND \<or> appState s2 = ANALYZING
                           then restored (appState s) else appState s2)
          \<and> appState s' \<noteq> INTERPRETING_COMMAND \<and> appState s' \<noteq> ANALYZING
          \<and> ((\<exists>e. interpreted ev = Rejects e) \<or> interpreted ev = Resolves None
               \<longrightarrow> appState s' = restored (appState s))
          \<and> ((\<exists>e. c2 = Threw e) \<and> \<not> isLive s \<and> \<not> isFindingActive s
               \<longrightarrow> appState s' = restored (appState s))"
proof -
  obtain s2 c2 where body: "commandBody s t ev (beginInterpreting t s) = (s2, c2)"
    by (cases "commandBody s t ev (beginInterpreting t s)")
  have nh: "c2 \<noteq> Hung"
    using assms(3) commandBody_hung[of s t ev "beginInterpreting t s"] by (simp add: body)
  obtain es where es: "effects s2 = effects s @ InterpretCommand t (personalItems s) (appState s) # es"
      "ResumeAfterProcessing \<notin> set es"
    using quiet_beginInterpreting_body[of s t ev s] by (auto simp: body)
  define h where "h = (case c2 of Threw e \<Rightarrow> commandCatch e s2 | _ \<Rightarrow> s2)"
  have hvc: "handleVoiceCommand t True ev s = (commandFinally (appState s) h, Returned)"
    using assms(1,2) nh
    by (cases c2) (simp_all add: handleVoiceCommand_def commandContinue_def hasStopWord_iff body h_def)
  have h_state: "appState h = appState s2"
    by (cases c2) (simp_all add: h_def commandCatch_def speak_def emit_def Let_def)
  obtain es' where es': "effects h = effects s @ InterpretCommand t (personalItems s) (appState s) # es'"
      "ResumeAfterProcessing \<notin> set es'"
    using es by (cases c2) (auto simp: h_def commandCatch_def speak_def emit_def Let_def)
  have new: "newEffects s (commandFinally (appState s) h)
      = InterpretCommand t (personalItems s) (appState s) # es' @ [ResumeAfterProcessing]"
    by (simp add: newEffects_def commandFinally_def emit_def es')
  have cnt: "count_list (newEffects s (commandFinally (appState s) h)) ResumeAfterProcessing = 1"
    using es'(2) by (simp add: new count_list_0_iff)
  have st: "appState (commandFinally (appState s) h) =
      (if appState s2 = INTERPRETING_COMMAND \<or> appState s2 = ANALYZING
       then restored (appState s) else appState s2)"
    by (simp add: commandFinally_def emit_def h_state restored_def)
  have out: "appState (commandFinally (appState s) h) \<noteq> INTERPRETING_COMMAND"
    "appState (commandFinally (appState s) h) \<noteq> ANALYZING"
    by (auto simp: st restored_def)
  have b0: "appState (beginInterpreting t s) = INTERPRETING_COMMAND"
    "isFindingActive (beginInterpreting t s) = isFindingActive s"
    by (simp_all add: beginInterpreting_def emit_def)
  have f1: "(\<exists>e. interpreted ev = Rejects e) \<or> interpreted ev = Resolves None
      \<Longrightarrow> appState s2 = INTERPRETING_COMMAND"
    using body b0 by (auto simp: commandBody_def)
  have f2: "(\<exists>e. c2 = Threw e) \<and> \<not> isLive s \<and> \<not> isFindingActive s \<Longrightarrow> appState s2 = INTERPRETING_COMMAND"
    using commandBody_threw[of s t ev "beginInterpreting t s"] body b0 by auto
  show ?thesis
    using new es'(2) cnt st out f1 f2 by (simp add: hvc body)
qed

theorem cleanup_after_interpretation_witness:
  "\<not> mentionsInterruptWord ''describe the scene'' \<and> \<not> isBusy idleApp
   \<and> \<not> (\<exists>p. interpreted describeEnv = Resolves (Some (FIND_ITEM, p)) \<and> itemName p \<noteq> []
               \<and> list_all noImage (finderFrames describeEnv))
   \<and> snd (handleVoiceCommand ''describe the scene'' True describeEnv idleApp) = Returned
   \<and> count_list (newEffects idleApp (fst (handleVoiceCommand ''describe the scene'' True describeEnv idleApp)))
        ResumeAfterProcessing = 1
   \<and> appState (fst (commandBody idleApp ''describe the scene'' describeEnv
                       (beginInterpreting ''describe the scene'' idleApp))) = AWAITING_FOLLOWUP
   \<and> appState (fst (handleVoiceCommand ''describe the scene'' True describeEnv idleApp))
        = AWAITING_FOLLOWUP"
proof -
  have b: "appState (fst (commandBody idleApp ''describe the scene'' describeEnv
                       (beginInterpreting ''describe the scene'' idleApp))) = AWAITING_FOLLOWUP"
    by code_simp
  have h: "\<not> hasStopWord ''describe the scene''" by code_simp
  have m: "\<not> mentionsInterruptWord ''describe the scene''" using h by (simp add: hasStopWord_iff)
  have a: "\<not> isBusy idleApp" by code_simp
  have n: "\<not> (\<exists>p. interpreted describeEnv = Resolves (Some (FIND_ITEM, p)) \<and> itemName p \<noteq> []
               \<and> list_all noImage (finderFrames describeEnv))"
    by (simp add: describeEnv_def)
  show ?thesis
    using cleanup_after_interpretation [OF m a n] m a n b
    by (simp add: split_beta Let_def)
qed

text \<open>
  The cleanup does not depend on the render or on what has happened while the
  interpretation was awaited: a command that is continued and returns gives the resume
  signal exactly once, as its last effect, and does not leave the busy state at
  \<open>INTERPRETING_COMMAND\<close> or \<open>ANALYZING\<close>.
\<close>

lemma commandContinue_cleanup:
  assumes "snd (commandBody r t ev s) \<noteq> Hung"
  shows "snd (commandContinue r t ev s) = Returned"
    and "\<exists>es. newEffects s (fst (commandContinue r t ev s)) = es @ [ResumeAfterProcessing]
              \<and> ResumeAfterProcessing \<notin> set es"
    and "appState (fst (commandContinue r t ev s)) \<noteq> INTERPRETING_COMMAND"
    and "appState (fst (commandContinue r t ev s)) \<noteq> ANALYZING"
proof -
  obtain s2 c2 where body: "commandBody r t ev s = (s2, c2)"
    by (cases "commandBody r t ev s")
  have nh: "c2 \<noteq> Hung" using assms by (simp add: body)
  obtain es where es: "effects s2 = effects s @ es" "ResumeAfterProcessing \<notin> set es"
    using quiet_commandBody[of s r t ev] by (auto simp: quiet_def body)
  define h where "h = (case c2 of Threw e \<Rightarrow> commandCatch e s2 | _ \<Rightarrow> s2)"
  have cc: "commandContinue r t ev s = (commandFinally (appState r) h, Returned)"
    using nh by (cases c2) (simp_all add: commandContinue_def body h_def)
  obtain es' where es': "effects h = effects s @ es'" "ResumeAfterProcessing \<notin> set es'"
    using es by (cases c2) (auto simp: h_def commandCatch_def speak_def emit_def Let_def)
  show "snd (commandContinue r t ev s) = Returned" by (simp add: cc)
  have "newEffects s (commandFinally (appState r) h) = es' @ [ResumeAfterProcessing]"
    by (simp add: newEffects_def commandFinally_def emit_def es')
  then show "\<exists>es. newEffects s (fst (commandContinue r t ev s)) = es @ [ResumeAfterProcessing]
              \<and> ResumeAfterProcessing \<notin> set es"
    using es'(2) by (simp add: cc)
  show "appState (fst (commandContinue r t ev s)) \<noteq> INTERPRETING_COMMAND"
    "appState (fst (commandContinue r t ev s)) \<noteq> ANALYZING"
    by (simp_all add: cc commandFinally_def emit_def)
qed

section \<open>Properties of the Polling Loop Engines\<close>

lemma commentary_failure_swallowed:
  assumes "isLiveActive s"
  shows "liveResume LiveAwaitAnalysis (Rejects e) fr s = (emit (Delay 2000) s, LiveAwaitDelay)"
    and "liveResume LiveAwaitDelay res (Some (c # cs)) (emit (Delay 2000) s)
           = (emit (Call GetQuickFrameDescription) (emit CaptureFrame (emit (Delay 2000) s)), LiveAwaitAnalysis)"
  using assms by (simp_all add: liveAfterAnalysis_def liveIterate_def emit_def noImage_def Let_def)

lemma object_search_failure_not_caught:
  "finderResume nm FinderAwaitAnalysis (Rejects e) frs s = (s, FinderFailed e)"
  by (simp add: finderAfterAnalysis_def)

text \<open>
  Claim C5. The claim holds for the commentary loop (\<open>commentary_failure_swallowed\<close>). In
  the object-search loop the failure is not caught: the search for ``keys'' is started and
  waits for its first analysis; the analysis fails; the asynchronous function ends with the
  rejection, the flag \<open>isFindingActive\<close> and the busy state \<open>FINDING_ITEM\<close> stay as they
  are, and no further iteration runs.
\<close>

theorem object_search_failure_ends_loop:
  "let (s1, pc1) = runObjectFinder ''keys'' [Some ''frame''] idleApp;
       (s2, pc2) = finderResume ''keys'' pc1 (Rejects (JsError ''network'')) [Some ''frame''] s1;
       (s3, pc3) = finderResume ''keys'' pc2 (Resolves ''I see your keys.'') [Some ''frame''] s2
   in pc1 = FinderAwaitAnalysis \<and> pc2 = FinderFailed (JsError ''network'') \<and> s2 = s1
      \<and> isFindingActive s2 \<and> appState s2 = FINDING_ITEM \<and> pc3 = pc2 \<and> s3 = s2"
  by (simp add: runObjectFinder_def finderAfterAnalysis_def idleApp_def speak_def emit_def Let_def noImage_def)

text \<open>
  Claim C6, as stated, fails for the commentary loop: stopped while its analysis is in
  flight, the loop does not exit when the analysis returns; it starts the 2000 ms
  inter-frame delay and is still suspended there.
\<close>

theorem commentary_exit_waits_for_delay:
  "let (s1, pc1) = runLiveCommentary (Some ''frame'') idleApp;
       s2 = stopLiveCommentary s1;
       (s3, pc3) = liveResume pc1 (Resolves ''A kitchen counter.'') None s2
   in pc1 = LiveAwaitAnalysis \<and> \<not> isLiveActive s2 \<and> pc3 = LiveAwaitDelay \<and> pc3 \<noteq> LiveExited
      \<and> newEffects s2 s3 = [Delay 2000]"
  by (simp add: runLiveCommentary_def liveIterate_def liveAfterAnalysis_def stopLiveCommentary_def
      idleApp_def speak_def cancel_def emit_def Let_def noImage_def newEffects_def)

text \<open>
  Claim C6, amended. \<open>stopLiveCommentary\<close> and \<open>stopObjectFinder\<close> clear the flag of their
  loop. A loop resumed while its flag is cleared speaks no result, requests no analysis and
  captures no frame. The commentary loop, resumed from the analysis, waits the 2000 ms
  delay, and exits when resumed from the delay. The object-search loop exits (or ends with
  the rejection) when resumed from the analysis, and exits when resumed from the 500 ms
  delay; resumed from the 3000 ms delay it waits the 500 ms delay first.
\<close>

theorem stopped_loop_stays_silent:
  "\<not> isLiveActive (stopLiveCommentary u) \<and> \<not> isFindingActive (stopObjectFinder u)
   \<and> (\<not> isLiveActive s \<longrightarrow>
         liveResume LiveAwaitAnalysis res fr s = (emit (Delay 2000) s, LiveAwaitDelay)
       \<and> liveResume LiveAwaitDelay res fr s = (s, LiveExited)
       \<and> liveResume LiveExited res fr s = (s, LiveExited))
   \<and> (\<not> isFindingActive s \<longrightarrow>
         finderResume nm FinderAwaitAnalysis (Resolves answer) frs s = (s, FinderExited)
       \<and> finderResume nm FinderAwaitAnalysis (Rejects e) frs s = (s, FinderFailed e)
       \<and> finderResume nm FinderAwaitDelay3000 res frs s = (emit (Delay 500) s, FinderAwaitDelay500)
       \<and> finderResume nm FinderAwaitDelay500 res frs s = (s, FinderExited)
       \<and> finderResume nm FinderRunning res frs s = (s, FinderExited)
       \<and> finderResume nm FinderExited res frs s = (s, FinderExited))"
proof -
  have f: "\<not> isFindingActive s \<Longrightarrow> finderIterate nm frs s = (s, FinderExited)"
    by (cases frs) simp_all
  show ?thesis
    by (auto simp: f stopLiveCommentary_def stopObjectFinder_def cancel_def emit_def
        liveAfterAnalysis_def liveIterate_def finderAfterAnalysis_def split: outcome.splits)
qed

theorem stopped_loop_stays_silent_witness:
  "\<not> isLiveActive (stopLiveCommentary commentaryApp)
   \<and> liveResume LiveAwaitAnalysis (Resolves ''A kitchen counter.'') None (stopLiveCommentary commentaryApp)
        = (emit (Delay 2000) (stopLiveCommentary commentaryApp), LiveAwaitDelay)
   \<and> liveResume LiveAwaitDelay (Resolves []) (Some ''frame'') (stopLiveCommentary commentaryApp)
        = (stopLiveCommentary commentaryApp, LiveExited)
   \<and> \<not> isFindingActive (stopObjectFinder searchingApp)
   \<and> finderResume ''keys'' FinderAwaitAnalysis (Resolves ''I see your keys.'') [Some ''frame'']
        (stopObjectFinder searchingApp) = (stopObjectFinder searchingApp, FinderExited)"
  using stopped_loop_stays_silent
      [where u = commentaryApp and s = "stopLiveCommentary commentaryApp"
         and res = "Resolves ''A kitchen counter.''" and fr = None]
    stopped_loop_stays_silent
      [where u = commentaryApp and s = "stopLiveCommentary commentaryApp"
         and res = "Resolves []" and fr = "Some ''frame''"]
    stopped_loop_stays_silent
      [where u = searchingApp and s = "stopObjectFinder searchingApp" and nm = "''keys''"
         and answer = "''I see your keys.''" and frs = "[Some ''frame'']"]
  by simp

text \<open>The handlers other than the two loop starters leave the loop flags alone.\<close>

lemma sameFlags_processAction: "sameFlags s (processAction r c b ev s)"
  by (simp add: sameFlags_def processAction_def emit_def cancel_def speak_def Let_def
      split: outcome.splits prod.splits)

lemma sameFlags_processTerrainAction: "sameFlags s (processTerrainAction r ev s)"
  by (simp add: sameFlags_def processTerrainAction_def emit_def cancel_def speak_def Let_def
      split: outcome.splits prod.splits)

lemma sameFlags_handleSaveItem: "sameFlags s (handleSaveItem r ev s)"
  by (simp add: sameFlags_def handleSaveItem_def saveFinally_def saveFailed_def emit_def cancel_def
      speak_def Let_def split: outcome.splits prod.splits)

lemma sameFlags_handleFollowUpQuestion: "sameFlags s (handleFollowUpQuestion r ev s)"
  by (simp add: sameFlags_def handleFollowUpQuestion_def followUpFinally_def followUpFailed_def
      emit_def cancel_def speak_def Let_def split: outcome.splits prod.splits)

lemma sameFlags_handleAskGemini: "sameFlags s (handleAskGemini q ev s)"
  by (simp add: sameFlags_def handleAskGemini_def askGeminiWith_def emit_def cancel_def
      speak_def Let_def split: outcome.splits prod.splits)

lemma sameFlags_handleDeleteItem: "sameFlags s (fst (handleDeleteItem n ev s))"
  by (simp add: sameFlags_def handleDeleteItem_def emit_def speak_def Let_def split: outcome.splits)

lemma sameFlags_finderIterate: "sameFlags s (fst (finderIterate n frs s))"
  by (induction frs arbitrary: s) (auto simp: sameFlags_def Let_def emit_def)

lemma sameFlags_liveIterate: "sameFlags s (fst (liveIterate fr s))"
  by (simp add: sameFlags_def liveIterate_def Let_def emit_def)

lemma loopsConsistent_sameFlags: "sameFlags s s' \<Longrightarrow> loopsConsistent s' = loopsConsistent s"
  by (auto simp: sameFlags_def loopsConsistent_def)

lemma stopActiveLoops_flags:
  assumes "isLive r = isLiveActive s"
  shows "\<not> isLiveActive (stopActiveLoops r a s)" "\<not> isFindingActive (stopActiveLoops r a s)"
  using assms
  by (auto simp: stopActiveLoops_def Let_def stopLiveCommentary_def stopObjectFinder_def cancel_def emit_def)

lemma stopActiveLoops_isLive:
  assumes "isLive r = isLiveActive s" "isLive s = isLiveActive s"
  shows "\<not> isLive (stopActiveLoops r a s)"
  using assms
  by (auto simp: stopActiveLoops_def Let_def stopLiveCommentary_def stopObjectFinder_def cancel_def emit_def)

lemma loopsConsistent_stopLiveCommentary: "loopsConsistent s \<Longrightarrow> loopsConsistent (stopLiveCommentary s)"
  by (simp add: loopsConsistent_def stopLiveCommentary_def cancel_def emit_def)

lemma loopsConsistent_stopObjectFinder: "loopsConsistent s \<Longrightarrow> loopsConsistent (stopObjectFinder s)"
  by (simp add: loopsConsistent_def stopObjectFinder_def cancel_def emit_def)

lemma loopsConsistent_runLiveCommentary:
  "loopsConsistent s \<Longrightarrow> \<not> isFindingActive s \<Longrightarrow> loopsConsistent (fst (runLiveCommentary fr s))"
  by (simp add: loopsConsistent_def runLiveCommentary_def liveIterate_def speak_def emit_def Let_def)

lemma loopsConsistent_runObjectFinder:
  assumes "loopsConsistent s" "\<not> isLiveActive s"
  shows "loopsConsistent (fst (runObjectFinder n frs s))"
proof (cases "isFindingActive s")
  case True
  then show ?thesis using assms by (simp add: runObjectFinder_def)
next
  case False
  define s1 where "s1 = speak (finderStartMessage n)
                (s\<lparr>isFindingActive := True, findingItemName := Some n,
                   appState := FINDING_ITEM, lastResponse := finderStartMessage n\<rparr>)"
  have a: "loopsConsistent s1"
    using assms by (simp add: s1_def loopsConsistent_def speak_def emit_def)
  have eq: "fst (runObjectFinder n frs s) = fst (finderIterate n frs s1)"
    using False by (simp add: runObjectFinder_def s1_def)
  show ?thesis
    unfolding eq using a loopsConsistent_sameFlags[OF sameFlags_finderIterate] by simp
qed

lemma loopsConsistent_actionMap:
  assumes "loopsConsistent s" "\<not> isLiveActive s" "\<not> isFindingActive s"
  shows "loopsConsistent (fst (actionMap r a p ev s))"
proof (cases a)
  case DESCRIBE_SCENE
  then show ?thesis using assms(1) loopsConsistent_sameFlags[OF sameFlags_processAction] by simp
next
  case READ_TEXT
  then show ?thesis using assms(1) loopsConsistent_sameFlags[OF sameFlags_processAction] by simp
next
  case IDENTIFY_PEOPLE
  then show ?thesis using assms(1) loopsConsistent_sameFlags[OF sameFlags_processAction] by simp
next
  case CHECK_HAZARDS
  then show ?thesis using assms(1) loopsConsistent_sameFlags[OF sameFlags_processAction] by simp
next
  case ANALYZE_TERRAIN
  then show ?thesis using assms(1) loopsConsistent_sameFlags[OF sameFlags_processTerrainAction] by simp
next
  case SAVE_ITEM
  then show ?thesis using assms(1) loopsConsistent_sameFlags[OF sameFlags_handleSaveItem] by simp
next
  case LIVE_COMMENTARY
  then show ?thesis
    using assms by (simp add: loopsConsistent_stopLiveCommentary loopsConsistent_runLiveCommentary)
next
  case FIND_ITEM
  have "loopsConsistent (fst (runObjectFinder (itemName p) (finderFrames ev) s))"
    using assms by (simp add: loopsConsistent_runObjectFinder)
  then show ?thesis using FIND_ITEM assms(1)
    by (auto split: prod.splits finder_pc.splits)
next
  case MANAGE_ITEMS
  then show ?thesis using assms(1) by (simp add: loopsConsistent_def speak_def emit_def)
next
  case HELP
  then show ?thesis using assms(1) by (simp add: loopsConsistent_def speak_def emit_def)
next
  case ASK_QUESTION
  then show ?thesis using assms(1) loopsConsistent_sameFlags[OF sameFlags_handleFollowUpQuestion] by simp
next
  case ASK_GEMINI
  then show ?thesis using assms(1) loopsConsistent_sameFlags[OF sameFlags_handleAskGemini] by simp
next
  case DELETE_ITEM
  then show ?thesis using assms(1) loopsConsistent_sameFlags[OF sameFlags_handleDeleteItem] by simp
next
  case CLOSE_MANAGEMENT
  then show ?thesis using assms(1) by (simp add: loopsConsistent_def cancel_def emit_def)
next
  case STOP
  then show ?thesis using assms(1) by simp
next
  case UNKNOWN
  then show ?thesis using assms(1) by simp
qed

lemma loopsConsistent_handleAction:
  assumes "loopsConsistent s" "isLive r = isLive s"
  shows "loopsConsistent (fst (handleAction r a p ev s))"
proof -
  have sync: "isLive r = isLiveActive s" "isLive s = isLiveActive s"
    using assms by (simp_all add: loopsConsistent_def)
  have a: "\<not> isLiveActive (stopActiveLoops r a s)" "\<not> isFindingActive (stopActiveLoops r a s)"
    by (rule stopActiveLoops_flags[OF sync(1)])+
  have c: "\<not> isLive (stopActiveLoops r a s)"
    by (rule stopActiveLoops_isLive[OF sync])
  have "loopsConsistent (stopActiveLoops r a s)"
    by (simp add: loopsConsistent_def a c)
  then show ?thesis
    unfolding handleAction_def by (rule loopsConsistent_actionMap[OF _ a])
qed

lemma loopsConsistent_stopCommand: "loopsConsistent s \<Longrightarrow> loopsConsistent (stopCommand s)"
  by (simp add: loopsConsistent_def stopCommand_def stopLiveCommentary_def stopObjectFinder_def
      cancel_def emit_def speak_def)

lemma loopsConsistent_commandBody:
  assumes "loopsConsistent s" "isLive r = isLive s"
  shows "loopsConsistent (fst (commandBody r t ev s))"
  using assms loopsConsistent_sameFlags[OF sameFlags_handleAskGemini]
  by (auto simp: commandBody_def loopsConsistent_handleAction split: outcome.splits option.splits)

lemma loopsConsistent_commandContinue:
  assumes "loopsConsistent s" "isLive r = isLive s"
  shows "loopsConsistent (fst (commandContinue r t ev s))"
proof -
  have c: "loopsConsistent (fst (commandBody r t ev s))"
    using loopsConsistent_commandBody[OF assms] .
  have f: "\<And>pre x. loopsConsistent (commandFinally pre x) = loopsConsistent x"
    by (simp add: loopsConsistent_def commandFinally_def emit_def)
  have g: "\<And>e x. loopsConsistent (commandCatch e x) = loopsConsistent x"
    by (simp add: loopsConsistent_def commandCatch_def speak_def emit_def Let_def)
  show ?thesis
    using c by (auto simp: commandContinue_def f g Let_def split: prod.splits completion.splits)
qed

lemma loopsConsistent_liveResume:
  "loopsConsistent s \<Longrightarrow> loopsConsistent (fst (liveResume pc res fr s))"
  by (cases pc)
     (auto simp: loopsConsistent_def liveAfterAnalysis_def liveIterate_def speak_def emit_def Let_def
        split: outcome.splits)

lemma loopsConsistent_finderResume:
  assumes "loopsConsistent s"
  shows "loopsConsistent (fst (finderResume n pc res frs s))"
proof (cases pc)
  case FinderAwaitAnalysis
  then show ?thesis using assms
    by (auto simp: loopsConsistent_def finderAfterAnalysis_def speak_def emit_def split: outcome.splits)
next
  case FinderAwaitDelay3000
  then show ?thesis using assms by (simp add: loopsConsistent_def emit_def)
next
  case FinderAwaitDelay500
  then show ?thesis using assms loopsConsistent_sameFlags[OF sameFlags_finderIterate] by simp
next
  case FinderRunning
  then show ?thesis using assms loopsConsistent_sameFlags[OF sameFlags_finderIterate] by simp
qed (use assms in simp_all)

text \<open>
  What holds of the loop flags. Starting a loop whose flag is set changes nothing. When
  \<open>handleAction\<close> runs in a render that shows the current \<open>isLive\<close>, it clears both
  flags before the handler of the action runs, and at most one flag is set afterwards;
  the same holds for a command continued in such a render, for the stop functions and for
  every resumption of a loop.
\<close>

lemma start_of_active_loop_is_noop:
  "isLiveActive s \<Longrightarrow> runLiveCommentary fr s = (s, LiveExited)"
  "isFindingActive s \<Longrightarrow> runObjectFinder nm frs s = (s, FinderExited)"
  by (simp_all add: runLiveCommentary_def runObjectFinder_def)

lemma one_loop_in_current_render:
  assumes "loopsConsistent s" "isLive r = isLive s"
  shows "\<not> isLiveActive (stopActiveLoops r a s)" "\<not> isFindingActive (stopActiveLoops r a s)"
    and "loopsConsistent (fst (handleAction r a p ev s))"
    and "loopsConsistent (fst (commandContinue r t ev s))"
    and "loopsConsistent (stopLiveCommentary s)" "loopsConsistent (stopObjectFinder s)"
    and "loopsConsistent (stopCommand s)"
    and "loopsConsistent (fst (liveResume lpc lres fr s))"
    and "loopsConsistent (fst (finderResume nm fpc fres frs s))"
proof -
  have sync: "isLive r = isLiveActive s" using assms by (simp add: loopsConsistent_def)
  show "\<not> isLiveActive (stopActiveLoops r a s)" "\<not> isFindingActive (stopActiveLoops r a s)"
    by (rule stopActiveLoops_flags[OF sync])+
  show "loopsConsistent (fst (handleAction r a p ev s))"
    by (rule loopsConsistent_handleAction[OF assms])
  show "loopsConsistent (fst (commandContinue r t ev s))"
    by (rule loopsConsistent_commandContinue[OF assms])
  show "loopsConsistent (stopLiveCommentary s)" "loopsConsistent (stopObjectFinder s)"
    "loopsConsistent (stopCommand s)"
    using assms(1)
    by (simp_all add: loopsConsistent_stopLiveCommentary loopsConsistent_stopObjectFinder
        loopsConsistent_stopCommand)
  show "loopsConsistent (fst (liveResume lpc lres fr s))"
    by (rule loopsConsistent_liveResume[OF assms(1)])
  show "loopsConsistent (fst (finderResume nm fpc fres frs s))"
    by (rule loopsConsistent_finderResume[OF assms(1)])
qed

text \<open>
  Claim C7. The claim says that at most one loop is active at any instant. The code sets
  both flags when \<open>handleAction\<close> runs in a render that is no longer current: it tests the
  component state \<open>isLive\<close> of its render for the commentary loop (App.tsx 143), and the
  ref only for the object search (144). The transcript ``find my keys'' arrives in the idle
  application and waits for its interpretation; the transcript ``stop'' returns the
  application to \<open>IDLE\<close>; live commentary is started from the controls; then the first
  interpretation arrives with the action \<open>FIND_ITEM\<close>, and the command goes on in its own
  render, the idle one, where \<open>isLive\<close> is false. The commentary loop is not stopped, the
  object search is started, and both flags are set.
\<close>

theorem stale_render_starts_second_loop:
  "let s1 = beginInterpreting ''find my keys'' idleApp;
       s2 = fst (handleVoiceCommand ''stop'' True describeEnv s1);
       s3 = fst (handleAction s2 ActionType.LIVE_COMMENTARY noPayload describeEnv s2);
       s4 = fst (commandContinue idleApp ''find my keys'' keysEnv s3)
   in \<not> hasStopWord ''find my keys'' \<and> \<not> isBusy idleApp
      \<and> appState s1 = INTERPRETING_COMMAND
      \<and> appState s2 = IDLE \<and> \<not> isLive s2 \<and> \<not> isLiveActive s2 \<and> \<not> isFindingActive s2
      \<and> appState s3 = LIVE_COMMENTARY \<and> isLiveActive s3 \<and> \<not> isFindingActive s3
      \<and> isLiveActive s4 \<and> isFindingActive s4 \<and> \<not> loopsConsistent s4"
  by code_simp

text \<open>
  Claim C10. In the object-search loop, with the flag set, iterations in which
  \<open>captureFrame\<close> returns no image do nothing but call \<open>captureFrame\<close>: no analysis, no
  speech, no delay, no change of the state; after any number of them the loop is still
  running synchronously, so it has not reached an \<open>await\<close> at which a stop request could
  be served.
\<close>

theorem null_frames_spin:
  assumes "isFindingActive s" "list_all noImage frs"
  shows "finderIterate name frs s
           = (s\<lparr>effects := effects s @ replicate (length frs) CaptureFrame\<rparr>, FinderRunning)"
  using assms
proof (induction frs arbitrary: s)
  case Nil
  then show ?case by simp
next
  case (Cons fr frs)
  have "isFindingActive (emit CaptureFrame s)" using Cons.prems by (simp add: emit_def)
  moreover have "list_all noImage frs" using Cons.prems by simp
  ultimately have "finderIterate name frs (emit CaptureFrame s)
      = ((emit CaptureFrame s)\<lparr>effects := effects (emit CaptureFrame s) @ replicate (length frs) CaptureFrame\<rparr>, FinderRunning)"
    by (rule Cons.IH)
  then show ?case using Cons.prems by (simp add: Let_def emit_def replicate_append_same)
qed

theorem null_frames_spin_witness:
  "isFindingActive searchingApp \<and> list_all noImage [None, None, Some []]
   \<and> finderIterate ''keys'' [None, None, Some []] searchingApp
        = (searchingApp\<lparr>effects := effects searchingApp @ [CaptureFrame, CaptureFrame, CaptureFrame]\<rparr>,
           FinderRunning)"
proof -
  have a: "isFindingActive searchingApp" "list_all noImage [None, None, Some []]"
    by code_simp+
  show ?thesis
    using null_frames_spin [OF a, of "''keys''"] a by (simp add: numeral_3_eq_3)
qed

end
